theory Spec2Isabelle
  imports Main
begin

section \<open>Strings\<close>

text \<open>
  A JavaScript string is a sequence of UTF-16 code units.  A code unit is modelled as a natural
  number; the literals of the source are written with \<open>str\<close>, which maps the characters of
  an Isabelle string to their codes, and \<open>sq\<close> is the apostrophe.
\<close>

type_synonym jsstring = "nat list"

definition str :: "string \<Rightarrow> jsstring" where
  "str s = map of_char s"

definition sq :: jsstring where
  "sq = [39]"

text \<open>
  White space and line terminators of ECMAScript: the code units removed by \<open>trim\<close>,
  skipped by \<open>parseFloat\<close> and matched by \<open>\s\<close>.
\<close>

definition isWhiteSpace :: "nat \<Rightarrow> bool" where
  "isWhiteSpace c \<longleftrightarrow>
     c \<in> {9, 10, 11, 12, 13, 32, 160, 5760, 8232, 8233, 8239, 8287, 12288, 65279}
     \<or> (8192 \<le> c \<and> c \<le> 8202)"

text \<open>The class \<open>\d\<close> of a pattern without the unicode flag: the ASCII digits.\<close>

definition isDigit :: "nat \<Rightarrow> bool" where
  "isDigit c \<longleftrightarrow> 48 \<le> c \<and> c \<le> 57"

definition trim :: "jsstring \<Rightarrow> jsstring" where
  "trim s = rev (dropWhile isWhiteSpace (rev (dropWhile isWhiteSpace s)))"

text \<open>\<open>s.padStart(n, fill)\<close>.\<close>

definition padStart :: "nat \<Rightarrow> jsstring \<Rightarrow> jsstring \<Rightarrow> jsstring" where
  "padStart n fill s =
     (if n \<le> length s \<or> fill = [] then s
      else take (n - length s) (concat (replicate (n - length s) fill)) @ s)"

section \<open>Regular expressions\<close>

text \<open>
  The three patterns of the source use literals, character classes, \<open>+\<close> on a character
  class, sequence, alternation, \<open>?\<close>, one capturing group and the anchors \<open>^\<close> and
  \<open>$\<close>.  A pattern is run by backtracking: \<open>run\<close> returns every way the pattern can
  match at the current position, in the order in which a backtracking matcher tries them
  (alternatives from left to right, a greedy quantifier longest first), and the first one is
  the match.  A matcher state is the content of capturing group 1 (\<open>None\<close> while
  undefined) and the rest of the input.
\<close>

datatype re =
    Lit jsstring
  | Chars "nat \<Rightarrow> bool"
  | Many1 "nat \<Rightarrow> bool"
  | Seq re re
  | Alt re re
  | Opt re
  | Group re
  | Bol
  | Eol

type_synonym mstate = "jsstring option \<times> jsstring"

fun strip_prefix :: "jsstring \<Rightarrow> jsstring \<Rightarrow> jsstring option" where
  "strip_prefix [] s = Some s"
| "strip_prefix (x # p) [] = None"
| "strip_prefix (x # p) (y # s) = (if x = y then strip_prefix p s else None)"

text \<open>The rests of the input after one or more code units of a class, longest run first.\<close>

fun many1_ends :: "(nat \<Rightarrow> bool) \<Rightarrow> jsstring \<Rightarrow> jsstring list" where
  "many1_ends P [] = []"
| "many1_ends P (x # r) = (if P x then many1_ends P r @ [r] else [])"

fun run :: "jsstring \<Rightarrow> re \<Rightarrow> mstate \<Rightarrow> mstate list" where
  "run inp (Lit p) (c, s) = (case strip_prefix p s of None \<Rightarrow> [] | Some r \<Rightarrow> [(c, r)])"
| "run inp (Chars P) (c, s) = (case s of [] \<Rightarrow> [] | x # r \<Rightarrow> if P x then [(c, r)] else [])"
| "run inp (Many1 P) (c, s) = map (Pair c) (many1_ends P s)"
| "run inp (Seq a b) st = concat (map (run inp b) (run inp a st))"
| "run inp (Alt a b) st = run inp a st @ run inp b st"
| "run inp (Opt a) st = run inp a st @ [st]"
| "run inp (Group a) (c, s) =
     map (\<lambda>(c', r). (Some (take (length s - length r) s), r)) (run inp a (c, s))"
| "run inp Bol (c, s) = (if length s = length inp then [(c, s)] else [])"
| "run inp Eol (c, s) = (if s = [] then [(c, s)] else [])"

text \<open>\<open>a|b|c\<close>\<close>

fun alts :: "re list \<Rightarrow> re" where
  "alts [] = Lit []"
| "alts [r] = r"
| "alts (r # rs) = Alt r (alts rs)"

text \<open>
  \<open>exec_from inp r s\<close> looks for the leftmost match of \<open>r\<close> in the input \<open>inp\<close>
  starting at the suffix \<open>s\<close> or later: the suffix where the match starts, group 1 and
  the rest of the input after the match.
\<close>

fun exec_from ::
  "jsstring \<Rightarrow> re \<Rightarrow> jsstring \<Rightarrow> (jsstring \<times> jsstring option \<times> jsstring) option" where
  "exec_from inp r [] =
     (case run inp r (None, []) of [] \<Rightarrow> None | (c, e) # _ \<Rightarrow> Some ([], c, e))"
| "exec_from inp r (x # s) =
     (case run inp r (None, x # s) of [] \<Rightarrow> exec_from inp r s
      | (c, e) # _ \<Rightarrow> Some (x # s, c, e))"

text \<open>
  \<open>s.match(r)\<close> for a pattern without the global flag: \<open>None\<close> is \<open>null\<close>, and a match
  is represented by its group 1 (\<open>None\<close> for \<open>undefined\<close>).
\<close>

definition match :: "jsstring \<Rightarrow> re \<Rightarrow> jsstring option option" where
  "match s r = map_option (\<lambda>(b, c, e). c) (exec_from s r s)"

section \<open>The Theme-Name strategy\<close>

text \<open>\<^verbatim>\<open>/^'Yaru(?:-(bark|sage|olive|viridian|prussiangreen|blue|purple|magenta|red))?(?:-dark)?'$/\<close>\<close>

definition re_yaru :: re where
  "re_yaru =
     Seq Bol (Seq (Lit (sq @ str ''Yaru''))
       (Seq (Opt (Seq (Lit (str ''-''))
                  (Group (alts (map (Lit \<circ> str) [''bark'', ''sage'', ''olive'', ''viridian'',
                     ''prussiangreen'', ''blue'', ''purple'', ''magenta'', ''red''])))))
         (Seq (Opt (Lit (str ''-dark''))) (Seq (Lit sq) Eol))))"

text \<open>The body of \<open>ubuntu\<close> after the command has returned its output.\<close>

definition ubuntu_parse :: "jsstring \<Rightarrow> jsstring option" where
  "ubuntu_parse output =
     (case match (trim output) re_yaru of
        None \<Rightarrow> None
      | Some None \<Rightarrow> Some (str ''#e95420'')
      | Some (Some v) \<Rightarrow>
          if v = str ''bark'' then Some (str ''#787859'')
          else if v = str ''sage'' then Some (str ''#657b69'')
          else if v = str ''olive'' then Some (str ''#4b8501'')
          else if v = str ''viridian'' then Some (str ''#03875b'')
          else if v = str ''prussiangreen'' then Some (str ''#308280'')
          else if v = str ''blue'' then Some (str ''#0073e5'')
          else if v = str ''purple'' then Some (str ''#7764d8'')
          else if v = str ''magenta'' then Some (str ''#b34bc3'')
          else if v = str ''red'' then Some (str ''#da3450'')
          else None)"

section \<open>The Extension strategy\<close>

text \<open>\<^verbatim>\<open>/^'(green|yellow|orange|red|pink|purple|brown)'$/\<close>\<close>

definition re_accent :: re where
  "re_accent =
     Seq Bol (Seq (Lit sq)
       (Seq (Group (alts (map (Lit \<circ> str) [''green'', ''yellow'', ''orange'', ''red'',
                     ''pink'', ''purple'', ''brown''])))
         (Seq (Lit sq) Eol)))"

definition gnomeCustomAccentColorExtension_parse :: "jsstring \<Rightarrow> jsstring option" where
  "gnomeCustomAccentColorExtension_parse output =
     (case match (trim output) re_accent of
        None \<Rightarrow> None
      | Some None \<Rightarrow> None
      | Some (Some v) \<Rightarrow>
          if v = str ''green'' then Some (str ''#2ec27e'')
          else if v = str ''yellow'' then Some (str ''#f5c211'')
          else if v = str ''orange'' then Some (str ''#e66100'')
          else if v = str ''red'' then Some (str ''#c01c28'')
          else if v = str ''pink'' then Some (str ''#dc8add'')
          else if v = str ''purple'' then Some (str ''#813d9c'')
          else if v = str ''brown'' then Some (str ''#865e3c'')
          else None)"

section \<open>Numbers\<close>

text \<open>
  A JavaScript Number is an IEEE 754 double.  \<open>Fin m e\<close> is the finite number
  \<open>m * 2 ^ e\<close>; the model has one zero, since no operation of this program tells
  \<open>+0\<close> from \<open>-0\<close>.
\<close>

datatype number = NaN | Fin int int | PosInf | NegInf

text \<open>
  \<open>floor_log2 n d\<close> is the binary exponent of the positive fraction \<open>n / d\<close>:
  the largest \<open>e\<close> with \<open>2 ^ e \<le> n / d\<close>.
\<close>

function log2_up :: "nat \<Rightarrow> nat \<Rightarrow> nat" where
  "log2_up n d = (if d = 0 \<or> n < 2 * d then 0 else Suc (log2_up n (2 * d)))"
  by pat_completeness auto
termination
  by (relation "measure (\<lambda>(n, d). n - d)") auto

function log2_down :: "nat \<Rightarrow> nat \<Rightarrow> nat" where
  "log2_down n d = (if n = 0 \<or> d \<le> n then 0 else Suc (log2_down (2 * n) d))"
  by pat_completeness auto
termination
  by (relation "measure (\<lambda>(n, d). d - n)") auto

definition floor_log2 :: "nat \<Rightarrow> nat \<Rightarrow> int" where
  "floor_log2 n d = (if d \<le> n then int (log2_up n d) else - int (log2_down n d))"

text \<open>The integer nearest to \<open>a / b\<close> for \<open>0 < b\<close>, a tie going to the even one.\<close>

definition rne :: "int \<Rightarrow> int \<Rightarrow> int" where
  "rne a b =
     (let q = a div b; r = a mod b
      in if 2 * r < b then q else if b < 2 * r then q + 1 else if even q then q else q + 1)"

text \<open>
  \<open>round_double n d\<close> is the double nearest to the fraction \<open>n / d\<close> (\<open>0 < d\<close>),
  rounding to nearest with ties to even: 53 significant bits, the exponent of the last bit
  no smaller than \<open>-1074\<close>, and infinity from \<open>2 ^ 1024\<close> on.
\<close>

definition round_double :: "nat \<Rightarrow> nat \<Rightarrow> number" where
  "round_double n d =
     (if n = 0 then Fin 0 0
      else
        let x = max (floor_log2 n d) (- 1022) - 52;
            m = (if 0 \<le> x then rne (int n) (int d * 2 ^ nat x)
                 else rne (int n * 2 ^ nat (- x)) (int d))
        in if 971 < x \<or> (x = 971 \<and> 2 ^ 53 \<le> m) then PosInf else Fin m x)"

definition with_sign :: "bool \<Rightarrow> number \<Rightarrow> number" where
  "with_sign neg v =
     (if neg then (case v of NaN \<Rightarrow> NaN | Fin m e \<Rightarrow> Fin (- m) e
                   | PosInf \<Rightarrow> NegInf | NegInf \<Rightarrow> PosInf)
      else v)"

text \<open>\<open>a < b\<close> on Numbers; \<open>a > b\<close> is \<open>js_lt b a\<close>.\<close>

fun js_lt :: "number \<Rightarrow> number \<Rightarrow> bool" where
  "js_lt (Fin m e) (Fin n f) = (let k = min e f in m * 2 ^ nat (e - k) < n * 2 ^ nat (f - k))"
| "js_lt (Fin m e) PosInf = True"
| "js_lt NegInf (Fin n f) = True"
| "js_lt NegInf PosInf = True"
| "js_lt _ _ = False"

fun sign_of :: "number \<Rightarrow> int" where
  "sign_of (Fin m e) = sgn m"
| "sign_of PosInf = 1"
| "sign_of NegInf = - 1"
| "sign_of NaN = 0"

text \<open>\<open>a * b\<close>: the exact product, rounded.\<close>

fun js_mul :: "number \<Rightarrow> number \<Rightarrow> number" where
  "js_mul NaN b = NaN"
| "js_mul a NaN = NaN"
| "js_mul (Fin m e) (Fin n f) =
     (let p = m * n; k = e + f
      in with_sign (p < 0)
           (if 0 \<le> k then round_double (nat \<bar>p\<bar> * 2 ^ nat k) 1
            else round_double (nat \<bar>p\<bar>) (2 ^ nat (- k))))"
| "js_mul a b =
     (let s = sign_of a * sign_of b
      in if s = 0 then NaN else if 0 < s then PosInf else NegInf)"

text \<open>
  \<open>Math.floor\<close> returns a Number that is an integer, an infinity or NaN; the model gives
  these a type of their own.
\<close>

datatype floored = FNaN | FInt int | FPosInf | FNegInf

fun math_floor :: "number \<Rightarrow> floored" where
  "math_floor NaN = FNaN"
| "math_floor PosInf = FPosInf"
| "math_floor NegInf = FNegInf"
| "math_floor (Fin m e) = FInt (if 0 \<le> e then m * 2 ^ nat e else m div 2 ^ nat (- e))"

definition hex_digit :: "nat \<Rightarrow> nat" where
  "hex_digit d = str ''0123456789abcdef'' ! d"

fun hex_digits :: "nat \<Rightarrow> jsstring" where
  "hex_digits n = (if n < 16 then [hex_digit n] else hex_digits (n div 16) @ [hex_digit (n mod 16)])"

text \<open>\<open>x.toString(16)\<close> for the result of \<open>Math.floor\<close>.\<close>

fun toString16 :: "floored \<Rightarrow> jsstring" where
  "toString16 FNaN = str ''NaN''"
| "toString16 FPosInf = str ''Infinity''"
| "toString16 FNegInf = str ''-Infinity''"
| "toString16 (FInt k) = (if k < 0 then str ''-'' @ hex_digits (nat (- k)) else hex_digits (nat k))"

subsection \<open>parseFloat\<close>

text \<open>
  \<open>parseFloat\<close> skips leading white space and reads the longest prefix that is a decimal
  literal: a sign, then \<open>Infinity\<close> or digits with an optional fraction and an optional
  exponent.  Whatever follows is ignored; with no such prefix the result is NaN.  The value
  is the decimal value of the literal rounded to a double.  (The language lets an engine
  drop the digits after the twentieth significant one; the model rounds the exact value, as
  V8 does.)
\<close>

definition digits_val :: "jsstring \<Rightarrow> nat" where
  "digits_val ds = foldl (\<lambda>a c. 10 * a + (c - 48)) 0 ds"

definition signed_digits :: "jsstring \<Rightarrow> int" where
  "signed_digits r =
     (case r of
        [] \<Rightarrow> 0
      | c # r' \<Rightarrow>
          if c = 45 then - int (digits_val (takeWhile isDigit r'))
          else if c = 43 then int (digits_val (takeWhile isDigit r'))
          else int (digits_val (takeWhile isDigit r)))"

text \<open>The value of the exponent part at the start of \<open>r\<close>, and 0 when there is none.\<close>

definition parse_exponent :: "jsstring \<Rightarrow> int" where
  "parse_exponent r =
     (case r of
        [] \<Rightarrow> 0
      | c # r' \<Rightarrow> if c = 101 \<or> c = 69 then signed_digits r' else 0)"

definition parseFloat :: "jsstring \<Rightarrow> number" where
  "parseFloat s =
     (let t = dropWhile isWhiteSpace s;
          neg = (case t of [] \<Rightarrow> False | c # r \<Rightarrow> c = 45);
          u = (case t of [] \<Rightarrow> [] | c # r \<Rightarrow> if c = 45 \<or> c = 43 then r else t)
      in case strip_prefix (str ''Infinity'') u of
           Some r \<Rightarrow> with_sign neg PosInf
         | None \<Rightarrow>
             let ip = takeWhile isDigit u;
                 r1 = dropWhile isDigit u;
                 fp = (case r1 of [] \<Rightarrow> [] | c # r \<Rightarrow> if c = 46 then takeWhile isDigit r else []);
                 r2 = (case r1 of [] \<Rightarrow> [] | c # r \<Rightarrow> if c = 46 then dropWhile isDigit r else r1)
             in if ip = [] \<and> fp = [] then NaN
                else
                  let k = parse_exponent r2 - int (length fp);
                      n = digits_val (ip @ fp)
                  in with_sign neg
                       (if 0 \<le> k then round_double (n * 10 ^ nat k) 1
                        else round_double n (10 ^ nat (- k))))"

section \<open>Matching with the global flag\<close>

lemma strip_prefix_Some: "strip_prefix p s = Some r \<longleftrightarrow> s = p @ r"
  by (induction p s rule: strip_prefix.induct) auto

lemma many1_ends_suffix: "r \<in> set (many1_ends P s) \<Longrightarrow> \<exists>pre. s = pre @ r"
proof (induction s)
  case Nil
  then show ?case by simp
next
  case (Cons x s)
  then show ?case
    by (cases "P x") (auto intro: exI[of _ "[x]"] simp: Cons_eq_append_conv)
qed

lemma run_suffix: "(c', e) \<in> set (run inp r (c, s)) \<Longrightarrow> \<exists>pre. s = pre @ e"
proof (induction r arbitrary: c s c' e)
  case (Lit p)
  then show ?case by (cases "strip_prefix p s") (auto simp: strip_prefix_Some)
next
  case (Chars P)
  then show ?case by (auto split: list.splits if_splits)
next
  case (Many1 P)
  then show ?case by (auto dest: many1_ends_suffix)
next
  case (Seq a b)
  from Seq.prems obtain c1 e1 where 1: "(c1, e1) \<in> set (run inp a (c, s))"
    and 2: "(c', e) \<in> set (run inp b (c1, e1))" by auto
  from Seq.IH(1)[OF 1] Seq.IH(2)[OF 2] show ?case by auto
next
  case (Alt a b)
  then show ?case by auto
next
  case (Opt a)
  then show ?case by auto
next
  case (Group a)
  then show ?case by auto
next
  case Bol
  then show ?case by (auto split: if_splits)
next
  case Eol
  then show ?case by (auto split: if_splits)
qed

lemma exec_from_Some:
  "exec_from inp r s = Some (b, c, e) \<Longrightarrow>
     (c, e) \<in> set (run inp r (None, b)) \<and> (\<exists>pre. s = pre @ b)"
proof (induction s)
  case Nil
  then show ?case by (auto split: list.splits)
next
  case (Cons x s)
  show ?case
  proof (cases "run inp r (None, x # s)")
    case Nil
    with Cons.prems have "exec_from inp r s = Some (b, c, e)" by simp
    from Cons.IH[OF this] show ?thesis by (metis append_Cons)
  next
    case (Cons a list)
    with Cons.prems show ?thesis by (auto split: prod.splits)
  qed
qed

lemma exec_from_length:
  assumes "exec_from inp r s = Some (b, c, e)"
  shows "length e \<le> length b \<and> length b \<le> length s"
proof -
  from exec_from_Some[OF assms] obtain pre where
    1: "(c, e) \<in> set (run inp r (None, b))" and 2: "s = pre @ b" by blast
  from run_suffix[OF 1] obtain mid where "b = mid @ e" by blast
  with 2 show ?thesis by simp
qed

text \<open>
  \<open>[...s.matchAll(r)]\<close> for a pattern with the global flag: the matches from left to
  right, each search starting where the last match ended (one code unit further after an
  empty match).  A match is represented by its group 1.
\<close>

function matchAll_from :: "jsstring \<Rightarrow> re \<Rightarrow> jsstring \<Rightarrow> jsstring option list" where
  "matchAll_from inp r s =
     (case exec_from inp r s of
        None \<Rightarrow> []
      | Some (b, c, e) \<Rightarrow>
          c # (if length e < length b then matchAll_from inp r e
               else (case e of [] \<Rightarrow> [] | x # e' \<Rightarrow> matchAll_from inp r e')))"
  by pat_completeness auto
termination
proof (relation "measure (\<lambda>(inp, r, s). length s)")
  show "wf (measure (\<lambda>(inp, r, s). length s))" by simp
next
  fix inp r s x2 b y c e
  assume "exec_from inp r s = Some x2" "(b, y) = x2" "(c, e) = y" "length e < length b"
  then have "exec_from inp r s = Some (b, c, e)" by simp
  from exec_from_length[OF this] \<open>length e < length b\<close>
  show "((inp, r, e), (inp, r, s)) \<in> measure (\<lambda>(inp, r, s). length s)" by simp
next
  fix inp r s x2 b y c e x e'
  assume "exec_from inp r s = Some x2" "(b, y) = x2" "(c, e) = y" "e = x # e'"
  then have "exec_from inp r s = Some (b, c, e)" by simp
  from exec_from_length[OF this] \<open>e = x # e'\<close>
  show "((inp, r, e'), (inp, r, s)) \<in> measure (\<lambda>(inp, r, s). length s)" by simp
qed

declare matchAll_from.simps [simp del]

definition matchAll :: "jsstring \<Rightarrow> re \<Rightarrow> jsstring option list" where
  "matchAll s r = matchAll_from s r s"

section \<open>The Portal strategy\<close>

text \<open>\<^verbatim>\<open>/double\s+(\d+(?:[,.]\d+)?)/g\<close>\<close>

definition re_double :: re where
  "re_double =
     Seq (Lit (str ''double''))
       (Seq (Many1 isWhiteSpace)
          (Group (Seq (Many1 isDigit)
                    (Opt (Seq (Chars (\<lambda>c. c = 44 \<or> c = 46)) (Many1 isDigit))))))"

text \<open>
  \<open>match[1]\<close> as the argument of \<open>parseFloat\<close>, which converts it to a string.
\<close>

definition group1 :: "jsstring option \<Rightarrow> jsstring" where
  "group1 m = (case m of None \<Rightarrow> str ''undefined'' | Some t \<Rightarrow> t)"

text \<open>The loop over the matches; \<open>hex\<close> is the string built so far.\<close>

fun hex_loop :: "jsstring option list \<Rightarrow> jsstring \<Rightarrow> jsstring option" where
  "hex_loop [] hex = Some hex"
| "hex_loop (m # ms) hex =
     (let v = parseFloat (group1 m)
      in if js_lt v (Fin 0 0) \<or> js_lt (Fin 1 0) v then None
         else hex_loop ms
                (hex @ padStart 2 (str ''0'') (toString16 (math_floor (js_mul v (Fin 255 0))))))"

text \<open>The body of \<open>xdgDesktopPortal\<close> after the command has returned its output.\<close>

definition xdgDesktopPortal_parse :: "jsstring \<Rightarrow> jsstring option" where
  "xdgDesktopPortal_parse output =
     (let matches = matchAll (trim output) re_double
      in if length matches \<noteq> 3 then None else hex_loop matches (str ''#''))"

section \<open>Running a command\<close>

text \<open>
  What a child process does between \<open>spawn\<close> and its \<open>close\<close> event: the argument of
  an \<open>error\<close> event if one was emitted, the exit code at \<open>close\<close> (\<open>None\<close> for
  \<open>null\<close>), and the chunks of its two output streams.  The model covers the runs in which
  the child closes.
\<close>

record child =
  launch_error :: "jsstring option"
  exitCode :: "int option"
  stdout_data :: "jsstring list"
  stderr_data :: "jsstring list"

text \<open>
  The operating system: what the child spawned for a command line does, given the number of
  processes spawned before it.
\<close>

type_synonym world = "nat \<Rightarrow> jsstring \<Rightarrow> jsstring list \<Rightarrow> child"

text \<open>
  What a promise is rejected with: the error of the child, the exit code and the standard
  error output of the message \<open>Exit code: ..., Stderr: ...\<close>, or the TypeError of calling
  \<open>undefined\<close>.
\<close>

datatype rejection =
    ChildError jsstring
  | ExitFailure "int option" jsstring
  | NotAFunction

text \<open>
  The state of the module: the variable \<open>usedStrategyIndex\<close> (\<open>None\<close> for
  \<open>undefined\<close>) and, to observe which commands are run, the command lines spawned so far.
\<close>

record process =
  usedStrategyIndex :: "int option"
  spawned :: "(jsstring \<times> jsstring list) list"

definition initial :: process where
  "initial = \<lparr>usedStrategyIndex = None, spawned = []\<rparr>"

definition runCommandHelper ::
  "world \<Rightarrow> jsstring \<Rightarrow> jsstring list \<Rightarrow> process \<Rightarrow> (rejection + jsstring) \<times> process" where
  "runCommandHelper w command args st =
     (let ch = w (length (spawned st)) command args;
          st' = st\<lparr>spawned := spawned st @ [(command, args)]\<rparr>;
          output = concat (stdout_data ch);
          errorOutput = concat (stderr_data ch)
      in case launch_error ch of
           Some err \<Rightarrow> (Inl (ChildError err), st')
         | None \<Rightarrow>
             if exitCode ch \<noteq> Some 0 then (Inl (ExitFailure (exitCode ch) errorOutput), st')
             else (Inr output, st'))"

section \<open>The strategies\<close>

type_synonym strategy = "world \<Rightarrow> process \<Rightarrow> (rejection + jsstring option) \<times> process"

definition xdgDesktopPortal :: strategy where
  "xdgDesktopPortal w st =
     (case runCommandHelper w (str ''dbus-send'')
             [str ''--print-reply=literal'',
              str ''--type=method_call'',
              str ''--dest=org.freedesktop.portal.Desktop'',
              str ''/org/freedesktop/portal/desktop'',
              str ''org.freedesktop.portal.Settings.ReadOne'',
              str ''string:org.freedesktop.appearance'',
              str ''string:accent-color''] st of
        (Inl err, st') \<Rightarrow> (Inl err, st')
      | (Inr output, st') \<Rightarrow> (Inr (xdgDesktopPortal_parse output), st'))"

definition ubuntu :: strategy where
  "ubuntu w st =
     (case runCommandHelper w (str ''gsettings'')
             [str ''get'', str ''org.gnome.desktop.interface'', str ''gtk-theme''] st of
        (Inl err, st') \<Rightarrow> (Inl err, st')
      | (Inr output, st') \<Rightarrow> (Inr (ubuntu_parse output), st'))"

definition gnomeCustomAccentColorExtension :: strategy where
  "gnomeCustomAccentColorExtension w st =
     (case runCommandHelper w (str ''gsettings'')
             [str ''get'', str ''org.gnome.shell.extensions.custom-accent-colors'',
              str ''accent-color''] st of
        (Inl err, st') \<Rightarrow> (Inl err, st')
      | (Inr output, st') \<Rightarrow> (Inr (gnomeCustomAccentColorExtension_parse output), st'))"

definition strategies :: "strategy list" where
  "strategies = [xdgDesktopPortal, ubuntu, gnomeCustomAccentColorExtension]"

section \<open>The dispatcher\<close>

text \<open>The loop over the strategies, from index \<open>i\<close> on, and the code after it.\<close>

function strategy_loop ::
  "world \<Rightarrow> nat \<Rightarrow> process \<Rightarrow> (rejection + jsstring option) \<times> process" where
  "strategy_loop w i st =
     (if i < length strategies then
        (case (strategies ! i) w st of
           (Inr (Some accentColor), st') \<Rightarrow>
             (Inr (Some accentColor), st'\<lparr>usedStrategyIndex := Some (int i)\<rparr>)
         | (Inr None, st') \<Rightarrow> strategy_loop w (i + 1) st'
         | (Inl err, st') \<Rightarrow> strategy_loop w (i + 1) st')
      else (Inr None, st\<lparr>usedStrategyIndex := Some (- 1)\<rparr>))"
  by pat_completeness auto
termination
  by (relation "measure (\<lambda>(w, i, st). length strategies - i)") auto

declare strategy_loop.simps [simp del]

definition getLinuxAccentColor ::
  "world \<Rightarrow> process \<Rightarrow> (rejection + jsstring option) \<times> process" where
  "getLinuxAccentColor w st =
     (case usedStrategyIndex st of
        Some i \<Rightarrow>
          if i = - 1 then (Inr None, st)
          else if 0 \<le> i \<and> i < int (length strategies) then (strategies ! nat i) w st
          else (Inl NotAFunction, st)
      | None \<Rightarrow> strategy_loop w 0 st)"

section \<open>The vocabulary of the specification\<close>

text \<open>
  The tables of the specification: the themes \<open>'Yaru[-<variant>][-dark]'\<close> with the color
  of each variant, and the names of the extension with theirs.
\<close>

definition yaru_colors :: "(string \<times> string) list" where
  "yaru_colors =
     [('''', ''#e95420''), (''-bark'', ''#787859''), (''-sage'', ''#657b69''),
      (''-olive'', ''#4b8501''), (''-viridian'', ''#03875b''),
      (''-prussiangreen'', ''#308280''), (''-blue'', ''#0073e5''),
      (''-purple'', ''#7764d8''), (''-magenta'', ''#b34bc3''), (''-red'', ''#da3450'')]"

definition yaru_table :: "(jsstring \<times> jsstring) list" where
  "yaru_table =
     concat (map (\<lambda>(v, c). [(sq @ str ''Yaru'' @ str v @ sq, str c),
                            (sq @ str ''Yaru'' @ str v @ str ''-dark'' @ sq, str c)])
                 yaru_colors)"

definition accent_table :: "(jsstring \<times> jsstring) list" where
  "accent_table =
     map (\<lambda>(v, c). (sq @ str v @ sq, str c))
       [(''green'', ''#2ec27e''), (''yellow'', ''#f5c211''), (''orange'', ''#e66100''),
        (''red'', ''#c01c28''), (''pink'', ''#dc8add''), (''purple'', ''#813d9c''),
        (''brown'', ''#865e3c'')]"

text \<open>
  The command line and the parser of each strategy, in the order of \<open>strategies\<close>.
\<close>

definition queries :: "(jsstring \<times> jsstring list) list" where
  "queries =
     [(str ''dbus-send'',
       [str ''--print-reply=literal'',
        str ''--type=method_call'',
        str ''--dest=org.freedesktop.portal.Desktop'',
        str ''/org/freedesktop/portal/desktop'',
        str ''org.freedesktop.portal.Settings.ReadOne'',
        str ''string:org.freedesktop.appearance'',
        str ''string:accent-color'']),
      (str ''gsettings'', [str ''get'', str ''org.gnome.desktop.interface'', str ''gtk-theme'']),
      (str ''gsettings'',
       [str ''get'', str ''org.gnome.shell.extensions.custom-accent-colors'',
        str ''accent-color''])]"

definition parsers :: "(jsstring \<Rightarrow> jsstring option) list" where
  "parsers = [xdgDesktopPortal_parse, ubuntu_parse, gnomeCustomAccentColorExtension_parse]"

text \<open>A transport error: the child could not be launched, or its exit code is not 0.\<close>

definition transport_failure :: "child \<Rightarrow> bool" where
  "transport_failure ch \<longleftrightarrow> \<not> (launch_error ch = None \<and> exitCode ch = Some 0)"

text \<open>
  \<open>answer w t i\<close> is the child of the command of strategy \<open>i\<close> when \<open>t\<close> processes
  were spawned before it, and \<open>probe w t i\<close> what the strategy makes of it during
  discovery: \<open>None\<close> after a transport error and when the output does not parse.
\<close>

definition answer :: "world \<Rightarrow> nat \<Rightarrow> nat \<Rightarrow> child" where
  "answer w t i = w t (fst (queries ! i)) (snd (queries ! i))"

definition probe :: "world \<Rightarrow> nat \<Rightarrow> nat \<Rightarrow> jsstring option" where
  "probe w t i =
     (if transport_failure (answer w t i) then None
      else (parsers ! i) (concat (stdout_data (answer w t i))))"

text \<open>
  The detection states of the specification are Unknown (\<open>None\<close>), Exhausted
  (\<open>Some (- 1)\<close>) and Resolved for the three strategies.
\<close>

definition known_state :: "process \<Rightarrow> bool" where
  "known_state st \<longleftrightarrow> usedStrategyIndex st \<in> {None, Some (- 1), Some 0, Some 1, Some 2}"

text \<open>The state of the module after \<open>k\<close> calls, each awaited before the next.\<close>

fun after :: "world \<Rightarrow> nat \<Rightarrow> process" where
  "after w 0 = initial"
| "after w (Suc k) = snd (getLinuxAccentColor w (after w k))"

text \<open>A stable environment: a command line has the same outcome whenever it is run.\<close>

definition stable :: "world \<Rightarrow> bool" where
  "stable w \<longleftrightarrow> (\<forall>t t' c a. w t c a = w t' c a)"

text \<open>
  The vocabulary of the Portal strategy: the two hexadecimal digits of a byte, the channel
  \<open>Math.floor(value * 255)\<close> of a Number, the Numbers \<open>m * 2 ^ e\<close> in the closed
  range from 0 to 1 (written with integers), the Numbers that are not negative, and the
  lowercase hexadecimal digits.
\<close>

definition byte_hex :: "nat \<Rightarrow> jsstring" where
  "byte_hex n = [hex_digit (n div 16), hex_digit (n mod 16)]"

definition channel :: "number \<Rightarrow> nat" where
  "channel v = (case math_floor (js_mul v (Fin 255 0)) of FInt k \<Rightarrow> nat k | _ \<Rightarrow> 0)"

definition in_unit_interval :: "number \<Rightarrow> bool" where
  "in_unit_interval v =
     (case v of
        Fin m e \<Rightarrow> 0 \<le> m \<and> (if 0 \<le> e then m * 2 ^ nat e \<le> 1 else m \<le> 2 ^ nat (- e))
      | _ \<Rightarrow> False)"

definition nonnegative :: "number \<Rightarrow> bool" where
  "nonnegative v = (case v of Fin m e \<Rightarrow> 0 \<le> m | PosInf \<Rightarrow> True | _ \<Rightarrow> False)"

definition is_hex_lower :: "nat \<Rightarrow> bool" where
  "is_hex_lower c \<longleftrightarrow> c \<in> set (str ''0123456789abcdef'')"

subsection \<open>Example environments\<close>

definition exits :: "int \<Rightarrow> jsstring \<Rightarrow> jsstring \<Rightarrow> child" where
  "exits code out err =
     \<lparr>launch_error = None, exitCode = Some code, stdout_data = [out], stderr_data = [err]\<rparr>"

definition not_found :: child where
  "not_found =
     \<lparr>launch_error = Some (str ''ENOENT''), exitCode = Some (- 2), stdout_data = [],
      stderr_data = []\<rparr>"

text \<open>
  An Ubuntu desktop with the purple accent color whose portal does not know the setting.
\<close>

definition yaru_desktop :: world where
  "yaru_desktop t command args =
     (if command = str ''dbus-send''
      then exits 1 [] (str ''Error org.freedesktop.portal.Error.NotFound'')
      else if args = snd (queries ! 1)
      then exits 0 (sq @ str ''Yaru-purple-dark'' @ sq @ [10]) []
      else exits 1 [] (str ''No such schema''))"

text \<open>
  Scenario 5 of the specification: a portal reply with two numbers, no \<open>gsettings\<close>
  for the theme, and an unknown name from the extension.
\<close>

definition bare_desktop :: world where
  "bare_desktop t command args =
     (if command = str ''dbus-send'' then exits 0 (str ''double 0.5 double 0.5'') []
      else if args = snd (queries ! 1) then not_found
      else exits 0 (sq @ str ''unknown'' @ sq @ [10]) [])"

text \<open>A desktop with another theme, and the module in the state Resolved(1).\<close>

definition adwaita_desktop :: world where
  "adwaita_desktop t command args = exits 0 (sq @ str ''Adwaita'' @ sq @ [10]) []"

definition no_commands :: world where
  "no_commands t command args = not_found"


text \<open>
  Replies of the portal: one as \<open>dbus-send\<close> prints it, the same reply with the
  numbers written with a comma, and one with a number above 1.
\<close>

definition portal_reply :: jsstring where
  "portal_reply =
     str ''   variant       struct {'' @ [10] @
     str ''         double 0.92'' @ [10] @
     str ''         double 0.33'' @ [10] @
     str ''         double 0.13'' @ [10] @
     str ''      }'' @ [10]"

definition comma_reply :: jsstring where
  "comma_reply =
     str ''   variant       struct {'' @ [10] @
     str ''         double 0,92'' @ [10] @
     str ''         double 0,33'' @ [10] @
     str ''         double 0,13'' @ [10] @
     str ''      }'' @ [10]"

definition bright_reply :: jsstring where
  "bright_reply = str ''double 1.5 double 0.5 double 0.5''"

section \<open>Calls in flight\<close>

text \<open>
  \<open>getLinuxAccentColor\<close> is an async function: a call runs to its next \<open>await\<close>,
  having spawned the command of a strategy, and goes on when the child has closed; in
  between, other calls can start and go on.  A call in flight waits at line 30 (the state
  was Resolved when it started) or at line 42 (in the loop, at index \<open>i\<close>), for the
  child it has spawned.  \<open>launch\<close> is the part of a strategy before its \<open>await\<close>,
  \<open>finish\<close> the part after it: the \<open>close\<close> handler of \<open>runCommandHelper\<close> and
  the parse of the output.
\<close>

datatype phase = Reinvoke | Probe

datatype call = Waiting phase nat child | Done "rejection + jsstring option"

datatype event = Call | Close nat

definition launch :: "world \<Rightarrow> nat \<Rightarrow> process \<Rightarrow> child \<times> process" where
  "launch w i st =
     (w (length (spawned st)) (fst (queries ! i)) (snd (queries ! i)),
      st\<lparr>spawned := spawned st @ [queries ! i]\<rparr>)"

definition close_handler :: "child \<Rightarrow> rejection + jsstring" where
  "close_handler ch =
     (case launch_error ch of
        Some err \<Rightarrow> Inl (ChildError err)
      | None \<Rightarrow>
          if exitCode ch \<noteq> Some 0
          then Inl (ExitFailure (exitCode ch) (concat (stderr_data ch)))
          else Inr (concat (stdout_data ch)))"

definition finish :: "nat \<Rightarrow> child \<Rightarrow> rejection + jsstring option" where
  "finish i ch =
     (case close_handler ch of
        Inl err \<Rightarrow> Inl err
      | Inr output \<Rightarrow> Inr ((parsers ! i) output))"

text \<open>
  The state of the module with the calls made so far, in the order in which they were made.
  \<open>Call\<close> starts a call; \<open>Close k\<close> is the \<open>close\<close> event of the child that call
  \<open>k\<close> waits for, after which the call runs to its next \<open>await\<close> or to its end.
\<close>

type_synonym flight = "process \<times> call list"

fun step :: "world \<Rightarrow> flight \<Rightarrow> event \<Rightarrow> flight" where
  "step w (st, cs) Call =
     (case usedStrategyIndex st of
        Some i \<Rightarrow>
          if i = - 1 then (st, cs @ [Done (Inr None)])
          else if 0 \<le> i \<and> i < int (length strategies)
          then (snd (launch w (nat i) st), cs @ [Waiting Reinvoke (nat i) (fst (launch w (nat i) st))])
          else (st, cs @ [Done (Inl NotAFunction)])
      | None \<Rightarrow> (snd (launch w 0 st), cs @ [Waiting Probe 0 (fst (launch w 0 st))]))"
| "step w (st, cs) (Close k) =
     (if length cs \<le> k then (st, cs)
      else
        case cs ! k of
          Done r \<Rightarrow> (st, cs)
        | Waiting Reinvoke i ch \<Rightarrow> (st, cs[k := Done (finish i ch)])
        | Waiting Probe i ch \<Rightarrow>
            (case finish i ch of
               Inr (Some accentColor) \<Rightarrow>
                 (st\<lparr>usedStrategyIndex := Some (int i)\<rparr>, cs[k := Done (Inr (Some accentColor))])
             | _ \<Rightarrow>
                 if i + 1 < length strategies
                 then (snd (launch w (i + 1) st),
                       cs[k := Waiting Probe (i + 1) (fst (launch w (i + 1) st))])
                 else (st\<lparr>usedStrategyIndex := Some (- 1)\<rparr>, cs[k := Done (Inr None)])))"

definition run_events :: "world \<Rightarrow> event list \<Rightarrow> flight \<Rightarrow> flight" where
  "run_events w evs fl = foldl (step w) fl evs"

text \<open>
  A desktop whose portal answers from the second \<open>dbus-send\<close> on, with the purple Yaru
  theme.
\<close>

definition waking_desktop :: world where
  "waking_desktop t command args =
     (if command = str ''dbus-send''
      then (if t = 0 then exits 1 [] (str ''Error org.freedesktop.DBus.Error.ServiceUnknown'')
            else exits 0 portal_reply [])
      else if args = snd (queries ! 1)
      then exits 0 (sq @ str ''Yaru-purple-dark'' @ sq @ [10]) []
      else exits 1 [] (str ''No such schema''))"

text \<open>
  The events in which \<open>k\<close> calls are made one after the other, each awaited before the
  next: call \<open>j\<close> begins and its commands end, at most three of them, before call
  \<open>j + 1\<close> begins.
\<close>

fun awaited :: "nat \<Rightarrow> event list" where
  "awaited 0 = []"
| "awaited (Suc k) = awaited k @ [Call, Close k, Close k, Close k]"

text \<open>The reply \<open>bright_reply\<close> written with decimal commas.\<close>

definition bright_comma_reply :: jsstring where
  "bright_comma_reply = str ''double 1,5 double 0,5 double 0,5''"

section \<open>What the patterns match\<close>

lemma in_run_Lit: "(c', e) \<in> set (run inp (Lit p) (c, s)) \<longleftrightarrow> c' = c \<and> s = p @ e"
  by (cases "strip_prefix p s") (auto simp: strip_prefix_Some[symmetric])

lemma in_run_Seq:
  "(c', e) \<in> set (run inp (Seq a b) st) \<longleftrightarrow>
     (\<exists>c1 e1. (c1, e1) \<in> set (run inp a st) \<and> (c', e) \<in> set (run inp b (c1, e1)))"
  by auto

lemma in_run_Alt:
  "x \<in> set (run inp (Alt a b) st) \<longleftrightarrow> x \<in> set (run inp a st) \<or> x \<in> set (run inp b st)"
  by simp

lemma in_run_Opt: "x \<in> set (run inp (Opt a) st) \<longleftrightarrow> x \<in> set (run inp a st) \<or> x = st"
  by auto

lemma in_run_Group:
  "(c', e) \<in> set (run inp (Group a) (c, s)) \<longleftrightarrow>
     (\<exists>c''. (c'', e) \<in> set (run inp a (c, s))) \<and> c' = Some (take (length s - length e) s)"
  by force

lemma in_run_Bol:
  "(c', e) \<in> set (run inp Bol (c, s)) \<longleftrightarrow> c' = c \<and> e = s \<and> length s = length inp"
  by auto

lemma in_run_Eol: "(c', e) \<in> set (run inp Eol (c, s)) \<longleftrightarrow> c' = c \<and> e = s \<and> s = []"
  by auto

lemmas in_run =
  in_run_Lit in_run_Seq in_run_Alt in_run_Opt in_run_Group in_run_Bol in_run_Eol

lemma match_Some:
  "match s r = Some cap \<Longrightarrow> \<exists>b e pre. s = pre @ b \<and> (cap, e) \<in> set (run s r (None, b))"
  unfolding match_def using exec_from_Some by fastforce

text \<open>A pattern that starts with \<open>^\<close> matches at the start of the input only.\<close>

lemma match_Bol:
  assumes "match s (Seq Bol r) = Some cap"
  shows "\<exists>e. (cap, e) \<in> set (run s (Seq Bol r) (None, s))"
proof -
  from match_Some[OF assms] obtain b e pre where
    s: "s = pre @ b" and r: "(cap, e) \<in> set (run s (Seq Bol r) (None, b))" by blast
  from r have "length b = length s"
    by (auto simp: in_run simp del: run.simps)
  with s have "b = s" by simp
  with r show ?thesis by blast
qed

subsection \<open>Theme names\<close>

lemma yaru_sound:
  assumes "match s re_yaru = Some cap"
  shows "s \<in> fst ` set yaru_table"
proof -
  from assms match_Bol obtain e where "(cap, e) \<in> set (run s re_yaru (None, s))"
    unfolding re_yaru_def by blast
  then show ?thesis
    unfolding re_yaru_def yaru_table_def yaru_colors_def
    by (simp add: in_run del: run.simps) (auto simp: sq_def str_def)
qed

lemma yaru_keys:
  "(k, c) \<in> set yaru_table \<Longrightarrow> trim output = k \<Longrightarrow> ubuntu_parse output = Some c"
  apply (simp add: yaru_table_def yaru_colors_def str_def sq_def)
  apply (elim disjE conjE)
  apply (simp_all add: ubuntu_parse_def match_def re_yaru_def str_def sq_def)
  done

lemma ubuntu_parse_iff:
  "ubuntu_parse output = Some c \<longleftrightarrow> (trim output, c) \<in> set yaru_table"
proof
  assume a: "ubuntu_parse output = Some c"
  then have "match (trim output) re_yaru \<noteq> None"
    by (cases "match (trim output) re_yaru") (simp_all add: ubuntu_parse_def)
  with yaru_sound obtain c' where "(trim output, c') \<in> set yaru_table"
    by fastforce
  with a yaru_keys[OF this refl] show "(trim output, c) \<in> set yaru_table" by simp
next
  assume "(trim output, c) \<in> set yaru_table"
  from yaru_keys[OF this refl] show "ubuntu_parse output = Some c" .
qed

text \<open>
  Claim C7.  The Theme-Name strategy returns a color exactly when the trimmed output is one
  of the themes \<open>'Yaru[-<variant>][-dark]'\<close> of the table, with the variant absent or one
  of the nine names, and then the color is the one the table gives for the variant (the
  themes of the table are distinct, so there is one); every other output gives \<open>null\<close>.
  The theme without a variant gives \<open>#e95420\<close>, \<open>'Yaru-purple-dark'\<close> gives
  \<open>#7764d8\<close>, the blue variant \<open>#0073e5\<close> and the red one \<open>#da3450\<close>.
\<close>

theorem ubuntu_theme_colors:
  "(ubuntu_parse output = Some c \<longleftrightarrow> (trim output, c) \<in> set yaru_table)
   \<and> (ubuntu_parse output = None \<longleftrightarrow> trim output \<notin> fst ` set yaru_table)
   \<and> distinct (map fst yaru_table)
   \<and> ubuntu_parse (sq @ str ''Yaru'' @ sq) = Some (str ''#e95420'')
   \<and> ubuntu_parse (sq @ str ''Yaru-purple-dark'' @ sq @ [10]) = Some (str ''#7764d8'')
   \<and> ubuntu_parse (sq @ str ''Yaru-blue'' @ sq) = Some (str ''#0073e5'')
   \<and> ubuntu_parse (sq @ str ''Yaru-red-dark'' @ sq) = Some (str ''#da3450'')
   \<and> ubuntu_parse (sq @ str ''Yaru-teal'' @ sq) = None"
proof -
  have 1: "ubuntu_parse output = Some c \<longleftrightarrow> (trim output, c) \<in> set yaru_table"
    by (rule ubuntu_parse_iff)
  have 2: "ubuntu_parse output = None \<longleftrightarrow> trim output \<notin> fst ` set yaru_table"
  proof -
    have "ubuntu_parse output = None \<longleftrightarrow> (\<forall>c. ubuntu_parse output \<noteq> Some c)"
      by auto
    also have "\<dots> \<longleftrightarrow> (\<forall>c. (trim output, c) \<notin> set yaru_table)"
      by (simp add: ubuntu_parse_iff)
    also have "\<dots> \<longleftrightarrow> trim output \<notin> fst ` set yaru_table"
      by force
    finally show ?thesis .
  qed
  have 3: "distinct (map fst yaru_table)"
    by (simp add: yaru_table_def yaru_colors_def str_def sq_def)
  have 4: "ubuntu_parse (sq @ str ''Yaru'' @ sq) = Some (str ''#e95420'')"
    "ubuntu_parse (sq @ str ''Yaru-purple-dark'' @ sq @ [10]) = Some (str ''#7764d8'')"
    "ubuntu_parse (sq @ str ''Yaru-blue'' @ sq) = Some (str ''#0073e5'')"
    "ubuntu_parse (sq @ str ''Yaru-red-dark'' @ sq) = Some (str ''#da3450'')"
    "ubuntu_parse (sq @ str ''Yaru-teal'' @ sq) = None"
    by (simp_all add: ubuntu_parse_def match_def re_yaru_def trim_def isWhiteSpace_def
        str_def sq_def)
  from 1 2 3 4 show ?thesis by blast
qed

subsection \<open>Names of the extension\<close>

lemma accent_sound:
  assumes "match s re_accent = Some cap"
  shows "s \<in> fst ` set accent_table"
proof -
  from assms match_Bol obtain e where "(cap, e) \<in> set (run s re_accent (None, s))"
    unfolding re_accent_def by blast
  then show ?thesis
    unfolding re_accent_def accent_table_def
    by (simp add: in_run del: run.simps) (auto simp: sq_def str_def)
qed

lemma accent_keys:
  "(k, c) \<in> set accent_table \<Longrightarrow> trim output = k \<Longrightarrow>
     gnomeCustomAccentColorExtension_parse output = Some c"
  apply (simp add: accent_table_def str_def sq_def)
  apply (elim disjE conjE)
  apply (simp_all add: gnomeCustomAccentColorExtension_parse_def match_def re_accent_def
      str_def sq_def)
  done

lemma accent_parse_iff:
  "gnomeCustomAccentColorExtension_parse output = Some c \<longleftrightarrow>
     (trim output, c) \<in> set accent_table"
proof
  assume a: "gnomeCustomAccentColorExtension_parse output = Some c"
  then have "match (trim output) re_accent \<noteq> None"
    by (cases "match (trim output) re_accent")
       (simp_all add: gnomeCustomAccentColorExtension_parse_def)
  with accent_sound obtain c' where "(trim output, c') \<in> set accent_table"
    by fastforce
  with a accent_keys[OF this refl] show "(trim output, c) \<in> set accent_table" by simp
next
  assume "(trim output, c) \<in> set accent_table"
  from accent_keys[OF this refl]
  show "gnomeCustomAccentColorExtension_parse output = Some c" .
qed

text \<open>
  Claim C8.  The Extension strategy returns a color exactly when the trimmed output is one
  of the seven quoted names of the table, and then the color is the one the table gives for
  the name (the names are distinct); every other output gives \<open>null\<close>, a name with the
  suffix \<open>-dark\<close> included.  \<open>'brown'\<close> gives \<open>#865e3c\<close>.
\<close>

theorem extension_colors:
  "(gnomeCustomAccentColorExtension_parse output = Some c \<longleftrightarrow>
      (trim output, c) \<in> set accent_table)
   \<and> (gnomeCustomAccentColorExtension_parse output = None \<longleftrightarrow>
      trim output \<notin> fst ` set accent_table)
   \<and> distinct (map fst accent_table) \<and> length accent_table = 7
   \<and> gnomeCustomAccentColorExtension_parse (sq @ str ''brown'' @ sq @ [10]) =
       Some (str ''#865e3c'')
   \<and> gnomeCustomAccentColorExtension_parse (sq @ str ''brown-dark'' @ sq @ [10]) = None"
proof -
  have 1: "gnomeCustomAccentColorExtension_parse output = Some c \<longleftrightarrow>
      (trim output, c) \<in> set accent_table"
    by (rule accent_parse_iff)
  have 2: "gnomeCustomAccentColorExtension_parse output = None \<longleftrightarrow>
      trim output \<notin> fst ` set accent_table"
  proof -
    have "gnomeCustomAccentColorExtension_parse output = None \<longleftrightarrow>
        (\<forall>c. gnomeCustomAccentColorExtension_parse output \<noteq> Some c)"
      by auto
    also have "\<dots> \<longleftrightarrow> (\<forall>c. (trim output, c) \<notin> set accent_table)"
      by (simp add: accent_parse_iff)
    also have "\<dots> \<longleftrightarrow> trim output \<notin> fst ` set accent_table"
      by force
    finally show ?thesis .
  qed
  have 3: "distinct (map fst accent_table)" "length accent_table = 7"
    by (simp_all add: accent_table_def str_def sq_def)
  have 4: "gnomeCustomAccentColorExtension_parse (sq @ str ''brown'' @ sq @ [10]) =
       Some (str ''#865e3c'')"
    "gnomeCustomAccentColorExtension_parse (sq @ str ''brown-dark'' @ sq @ [10]) = None"
    by (simp_all add: gnomeCustomAccentColorExtension_parse_def match_def re_accent_def
        trim_def isWhiteSpace_def str_def sq_def)
  from 1 2 3 4 show ?thesis by blast
qed

section \<open>The dispatcher and its state\<close>

lemma length_strategies: "length strategies = 3"
  by (simp add: strategies_def)

text \<open>
  What a call of strategy \<open>i\<close> does: it spawns its command, rejects after a transport
  error and returns the parse of the output otherwise.
\<close>

lemma strategy_at:
  assumes "i < 3"
  shows "(strategies ! i) w st =
     (if transport_failure (answer w (length (spawned st)) i)
      then (case launch_error (answer w (length (spawned st)) i) of
              Some err \<Rightarrow> Inl (ChildError err)
            | None \<Rightarrow> Inl (ExitFailure (exitCode (answer w (length (spawned st)) i))
                          (concat (stderr_data (answer w (length (spawned st)) i)))))
      else Inr ((parsers ! i) (concat (stdout_data (answer w (length (spawned st)) i)))),
      st\<lparr>spawned := spawned st @ [queries ! i]\<rparr>)"
proof -
  from assms consider "i = 0" | "i = 1" | "i = 2" by linarith
  then show ?thesis
  proof cases
    case 1
    then show ?thesis
      by (simp add: strategies_def xdgDesktopPortal_def runCommandHelper_def Let_def
          transport_failure_def answer_def queries_def parsers_def split: option.splits)
  next
    case 2
    then show ?thesis
      by (simp add: strategies_def ubuntu_def runCommandHelper_def Let_def
          transport_failure_def answer_def queries_def parsers_def split: option.splits)
  next
    case 3
    then show ?thesis
      by (simp add: strategies_def gnomeCustomAccentColorExtension_def runCommandHelper_def
          Let_def transport_failure_def answer_def queries_def parsers_def
          split: option.splits)
  qed
qed

lemma strategy_fst:
  "i < 3 \<Longrightarrow>
     fst ((strategies ! i) w st) = Inr (Some c) \<longleftrightarrow> probe w (length (spawned st)) i = Some c"
  by (simp add: strategy_at probe_def split: option.splits)

lemma strategy_snd:
  "i < 3 \<Longrightarrow> snd ((strategies ! i) w st) = st\<lparr>spawned := spawned st @ [queries ! i]\<rparr>"
  by (simp add: strategy_at)

lemma strategy_loop_step:
  assumes "i < 3"
  shows "strategy_loop w i st =
     (case probe w (length (spawned st)) i of
        Some c \<Rightarrow> (Inr (Some c),
                    st\<lparr>spawned := spawned st @ [queries ! i], usedStrategyIndex := Some (int i)\<rparr>)
      | None \<Rightarrow> strategy_loop w (i + 1) (st\<lparr>spawned := spawned st @ [queries ! i]\<rparr>))"
proof (cases "probe w (length (spawned st)) i")
  case None
  then have "\<And>c. fst ((strategies ! i) w st) \<noteq> Inr (Some c)"
    using strategy_fst[OF assms, of w st] by simp
  then show ?thesis
    using None assms strategy_snd[OF assms, of w st]
    apply (subst strategy_loop.simps)
    apply (cases "(strategies ! i) w st")
    apply (auto simp: length_strategies split: sum.splits option.splits)
    done
next
  case (Some c)
  then have "fst ((strategies ! i) w st) = Inr (Some c)"
    using strategy_fst[OF assms, of w st c] by simp
  then show ?thesis
    using Some assms strategy_snd[OF assms, of w st]
    apply (subst strategy_loop.simps)
    apply (cases "(strategies ! i) w st")
    apply (auto simp: length_strategies split: sum.splits option.splits)
    done
qed

lemma strategy_loop_end:
  "strategy_loop w 3 st = (Inr None, st\<lparr>usedStrategyIndex := Some (- 1)\<rparr>)"
  by (subst strategy_loop.simps) (simp add: length_strategies)

lemma discovery:
  assumes "usedStrategyIndex st = None"
  shows "getLinuxAccentColor w st =
     (let n = length (spawned st) in
      case probe w n 0 of
        Some c \<Rightarrow>
          (Inr (Some c), \<lparr>usedStrategyIndex = Some 0, spawned = spawned st @ take 1 queries\<rparr>)
      | None \<Rightarrow>
      (case probe w (n + 1) 1 of
        Some c \<Rightarrow>
          (Inr (Some c), \<lparr>usedStrategyIndex = Some 1, spawned = spawned st @ take 2 queries\<rparr>)
      | None \<Rightarrow>
      (case probe w (n + 2) 2 of
        Some c \<Rightarrow>
          (Inr (Some c), \<lparr>usedStrategyIndex = Some 2, spawned = spawned st @ take 3 queries\<rparr>)
      | None \<Rightarrow>
          (Inr None, \<lparr>usedStrategyIndex = Some (- 1), spawned = spawned st @ take 3 queries\<rparr>))))"
proof -
  define n where "n = length (spawned st)"
  define s1 where "s1 = st\<lparr>spawned := spawned st @ [queries ! 0]\<rparr>"
  define s2 where "s2 = s1\<lparr>spawned := spawned s1 @ [queries ! 1]\<rparr>"
  define s3 where "s3 = s2\<lparr>spawned := spawned s2 @ [queries ! 2]\<rparr>"
  have len: "length (spawned s1) = n + 1" "length (spawned s2) = n + 2"
    by (simp_all add: s1_def s2_def n_def)
  have l0: "strategy_loop w 0 st =
      (case probe w n 0 of
         Some c \<Rightarrow> (Inr (Some c), s1\<lparr>usedStrategyIndex := Some 0\<rparr>)
       | None \<Rightarrow> strategy_loop w 1 s1)"
    using strategy_loop_step[of 0 w st] by (simp add: s1_def n_def split: option.splits)
  have l1: "strategy_loop w 1 s1 =
      (case probe w (n + 1) 1 of
         Some c \<Rightarrow> (Inr (Some c), s2\<lparr>usedStrategyIndex := Some 1\<rparr>)
       | None \<Rightarrow> strategy_loop w 2 s2)"
    using strategy_loop_step[of 1 w s1]
    by (simp add: s2_def len numeral_2_eq_2 split: option.splits)
  have l2: "strategy_loop w 2 s2 =
      (case probe w (n + 2) 2 of
         Some c \<Rightarrow> (Inr (Some c), s3\<lparr>usedStrategyIndex := Some 2\<rparr>)
       | None \<Rightarrow> strategy_loop w 3 s3)"
    using strategy_loop_step[of 2 w s2]
    by (simp add: s3_def len numeral_2_eq_2 numeral_3_eq_3 split: option.splits)
  have r1: "s1\<lparr>usedStrategyIndex := Some 0\<rparr> =
      \<lparr>usedStrategyIndex = Some 0, spawned = spawned st @ take 1 queries\<rparr>"
    by (cases st) (simp add: s1_def queries_def)
  have r2: "s2\<lparr>usedStrategyIndex := Some 1\<rparr> =
      \<lparr>usedStrategyIndex = Some 1, spawned = spawned st @ take 2 queries\<rparr>"
    by (cases st) (simp add: s1_def s2_def queries_def)
  have r3: "s3\<lparr>usedStrategyIndex := Some k\<rparr> =
      \<lparr>usedStrategyIndex = Some k, spawned = spawned st @ take 3 queries\<rparr>" for k
    by (cases st) (simp add: s1_def s2_def s3_def queries_def)
  have start: "getLinuxAccentColor w st = strategy_loop w 0 st"
    using assms by (simp add: getLinuxAccentColor_def)
  show ?thesis
    unfolding Let_def n_def[symmetric] start l0 l1 l2 strategy_loop_end r1 r2 r3
    by (rule refl)
qed

lemma resolved_call:
  assumes "i < 3" "usedStrategyIndex st = Some (int i)"
  shows "getLinuxAccentColor w st = (strategies ! i) w st"
  using assms by (auto simp: getLinuxAccentColor_def length_strategies)

lemma resolved_step:
  assumes "i < 3" "usedStrategyIndex st = Some (int i)"
  shows "snd (getLinuxAccentColor w st) = st\<lparr>spawned := spawned st @ [queries ! i]\<rparr>"
  using assms by (simp add: resolved_call strategy_snd)

lemma exhausted_call:
  "usedStrategyIndex st = Some (- 1) \<Longrightarrow> getLinuxAccentColor w st = (Inr None, st)"
  by (simp add: getLinuxAccentColor_def)

lemma discovery_result:
  assumes "usedStrategyIndex st = None"
  shows "\<not> isl (fst (getLinuxAccentColor w st)) \<and>
         usedStrategyIndex (snd (getLinuxAccentColor w st)) \<in> {Some (- 1), Some 0, Some 1, Some 2}"
  unfolding discovery[OF assms] Let_def
  by (simp split: option.splits)

subsection \<open>Evaluating the example environments\<close>

lemmas example_defs =
  probe_def answer_def queries_def parsers_def transport_failure_def exits_def not_found_def
  yaru_desktop_def bare_desktop_def adwaita_desktop_def no_commands_def
  str_def sq_def trim_def isWhiteSpace_def isDigit_def match_def matchAll_def
  matchAll_from.simps

lemma yaru_desktop_probes:
  "probe yaru_desktop t 0 = None" "probe yaru_desktop t (Suc 0) = Some (str ''#7764d8'')"
  by (simp_all add: example_defs ubuntu_parse_def re_yaru_def)

lemma bare_desktop_probes:
  "probe bare_desktop t 0 = None" "probe bare_desktop t (Suc 0) = None"
  "probe bare_desktop t 2 = None"
  by (simp_all add: example_defs xdgDesktopPortal_parse_def re_double_def
      gnomeCustomAccentColorExtension_parse_def re_accent_def)

text \<open>
  Claim C1.  A call in the state Unknown runs the strategies in the order Portal, Theme-Name,
  Extension, each on the answer of its own command (the \<open>n\<close>-th, \<open>n + 1\<close>-st and
  \<open>n + 2\<close>-nd process).  A probe that ends in a transport error or returns \<open>null\<close>
  (\<open>probe\<close> is \<open>None\<close> for both) is passed over.  The first color found is returned, the
  state becomes Resolved with the index of its strategy, and no later strategy is run; with no
  color from any of the three, the state becomes Exhausted and \<open>null\<close> is returned.
\<close>

theorem discovery_order:
  assumes "usedStrategyIndex st = None"
  shows "getLinuxAccentColor w st =
     (let n = length (spawned st) in
      case probe w n 0 of
        Some c \<Rightarrow>
          (Inr (Some c), \<lparr>usedStrategyIndex = Some 0, spawned = spawned st @ take 1 queries\<rparr>)
      | None \<Rightarrow>
      (case probe w (n + 1) 1 of
        Some c \<Rightarrow>
          (Inr (Some c), \<lparr>usedStrategyIndex = Some 1, spawned = spawned st @ take 2 queries\<rparr>)
      | None \<Rightarrow>
      (case probe w (n + 2) 2 of
        Some c \<Rightarrow>
          (Inr (Some c), \<lparr>usedStrategyIndex = Some 2, spawned = spawned st @ take 3 queries\<rparr>)
      | None \<Rightarrow>
          (Inr None, \<lparr>usedStrategyIndex = Some (- 1), spawned = spawned st @ take 3 queries\<rparr>))))"
  using assms by (rule discovery)

theorem discovery_order_witness:
  "usedStrategyIndex initial = None
   \<and> getLinuxAccentColor yaru_desktop initial =
       (Inr (Some (str ''#7764d8'')), \<lparr>usedStrategyIndex = Some 1, spawned = take 2 queries\<rparr>)
   \<and> getLinuxAccentColor bare_desktop initial =
       (Inr None, \<lparr>usedStrategyIndex = Some (- 1), spawned = queries\<rparr>)"
proof -
  have h: "usedStrategyIndex initial = None" by (simp add: initial_def)
  have q: "take 3 queries = queries" by (simp add: queries_def)
  from h discovery_order[OF h, of yaru_desktop] discovery_order[OF h, of bare_desktop]
  show ?thesis
    by (simp add: yaru_desktop_probes bare_desktop_probes initial_def q split: option.splits)
qed



lemma first_call:
  "usedStrategyIndex (after w (Suc 0)) \<in> {Some (- 1), Some 0, Some 1, Some 2}"
  using discovery_result[of initial w] by (simp add: initial_def)

lemma index_kept:
  assumes "usedStrategyIndex st \<in> {Some (- 1), Some 0, Some 1, Some 2}"
  shows "usedStrategyIndex (snd (getLinuxAccentColor w st)) = usedStrategyIndex st"
proof -
  from assms consider "usedStrategyIndex st = Some (- 1)"
    | i where "i < 3" "usedStrategyIndex st = Some (int i)"
    by (auto intro: that(2)[of 0] that(2)[of 1] that(2)[of 2])
  then show ?thesis
  proof cases
    case 1
    then show ?thesis by (simp add: exhausted_call)
  next
    case 2
    then show ?thesis by (simp add: resolved_step)
  qed
qed

lemma index_settled:
  "usedStrategyIndex (after w (Suc k)) = usedStrategyIndex (after w (Suc 0))"
proof (induction k)
  case 0
  show ?case by simp
next
  case (Suc k)
  have "usedStrategyIndex (after w (Suc k)) \<in> {Some (- 1), Some 0, Some 1, Some 2}"
    using first_call[of w] Suc.IH by simp
  from index_kept[OF this, of w] Suc.IH show ?case by simp
qed

text \<open>The states of the specification are the ones the module can be in.\<close>

lemma after_known: "known_state (after w k)"
proof (cases k)
  case 0
  then show ?thesis by (simp add: known_state_def initial_def)
next
  case (Suc j)
  with index_settled[of w j] first_call[of w] show ?thesis
    by (auto simp: known_state_def)
qed

text \<open>
  Claim C3, as amended.  When the calls are made one after the other, each awaited before
  the next is made, the state starts as Unknown, the first call leaves it Resolved(i) or
  Exhausted, and it is the same after every later call.  Once Resolved(i), a call is one call
  of strategy \<open>i\<close> and spawns the command of that strategy and no other; once Exhausted, a
  call returns \<open>null\<close> and leaves the state as it is, the list of spawned commands
  included.  Without the condition on the calls the state can change a second time: the
  last section has two overlapping calls that take it from Resolved(1) to Resolved(0).
\<close>

theorem state_settles:
  "usedStrategyIndex (after w 0) = None
   \<and> usedStrategyIndex (after w 1) \<in> {Some (- 1), Some 0, Some 1, Some 2}
   \<and> (\<forall>k\<ge>1. usedStrategyIndex (after w k) = usedStrategyIndex (after w 1))
   \<and> (\<forall>k\<ge>1. \<forall>i<3. usedStrategyIndex (after w 1) = Some (int i) \<longrightarrow>
         getLinuxAccentColor w (after w k) = (strategies ! i) w (after w k)
         \<and> spawned (after w (Suc k)) = spawned (after w k) @ [queries ! i])
   \<and> (\<forall>k\<ge>1. usedStrategyIndex (after w 1) = Some (- 1) \<longrightarrow>
         getLinuxAccentColor w (after w k) = (Inr None, after w k)
         \<and> after w (Suc k) = after w k)"
proof -
  have settled: "usedStrategyIndex (after w k) = usedStrategyIndex (after w 1)" if "1 \<le> k" for k
  proof -
    from that obtain j where "k = Suc j" by (cases k) auto
    then show ?thesis using index_settled[of w j] by simp
  qed
  have a: "usedStrategyIndex (after w 0) = None" by (simp add: initial_def)
  have b: "usedStrategyIndex (after w 1) \<in> {Some (- 1), Some 0, Some 1, Some 2}"
    using first_call[of w] by simp
  have c: "getLinuxAccentColor w (after w k) = (strategies ! i) w (after w k)
         \<and> spawned (after w (Suc k)) = spawned (after w k) @ [queries ! i]"
    if "1 \<le> k" "i < 3" "usedStrategyIndex (after w 1) = Some (int i)" for k i
  proof -
    from that settled have "usedStrategyIndex (after w k) = Some (int i)" by simp
    from resolved_step[OF \<open>i < 3\<close> this, of w] resolved_call[OF \<open>i < 3\<close> this, of w]
    show ?thesis by simp
  qed
  have d: "getLinuxAccentColor w (after w k) = (Inr None, after w k)
         \<and> after w (Suc k) = after w k"
    if "1 \<le> k" "usedStrategyIndex (after w 1) = Some (- 1)" for k
    using that settled by (simp add: exhausted_call)
  from a b settled c d show ?thesis by blast
qed

lemma yaru_desktop_first: "after yaru_desktop 1 =
    \<lparr>usedStrategyIndex = Some 1, spawned = take 2 queries\<rparr>"
  using discovery[of initial yaru_desktop]
  by (simp add: yaru_desktop_probes initial_def split: option.splits)

lemma bare_desktop_first: "after bare_desktop 1 =
    \<lparr>usedStrategyIndex = Some (- 1), spawned = queries\<rparr>"
  using discovery[of initial bare_desktop]
  by (simp add: bare_desktop_probes initial_def queries_def split: option.splits)

theorem state_settles_witness:
  "usedStrategyIndex (after yaru_desktop 1) = Some 1
   \<and> usedStrategyIndex (after yaru_desktop 3) = Some 1
   \<and> spawned (after yaru_desktop 3) = take 2 queries @ [queries ! 1, queries ! 1]
   \<and> usedStrategyIndex (after bare_desktop 1) = Some (- 1)
   \<and> getLinuxAccentColor bare_desktop (after bare_desktop 1) = (Inr None, after bare_desktop 1)
   \<and> after bare_desktop 2 = after bare_desktop 1
   \<and> spawned (after bare_desktop 2) = queries"
proof -
  note y = state_settles[of yaru_desktop]
  note b = state_settles[of bare_desktop]
  have y1: "usedStrategyIndex (after yaru_desktop 1) = Some (int 1)"
    unfolding yaru_desktop_first by simp
  have b1: "usedStrategyIndex (after bare_desktop 1) = Some (- 1)"
    unfolding bare_desktop_first by simp
  from y y1 have y3: "usedStrategyIndex (after yaru_desktop 3) = Some 1"
    by simp
  from y y1 have "spawned (after yaru_desktop (Suc 1)) = spawned (after yaru_desktop 1) @ [queries ! 1]"
    "spawned (after yaru_desktop (Suc 2)) = spawned (after yaru_desktop 2) @ [queries ! 1]"
    by (metis one_le_numeral order_refl one_less_numeral_iff semiring_norm(77))+
  then have ys: "spawned (after yaru_desktop 3) = take 2 queries @ [queries ! 1, queries ! 1]"
    unfolding yaru_desktop_first numeral_3_eq_3 numeral_2_eq_2 by simp
  from b b1 have bs: "getLinuxAccentColor bare_desktop (after bare_desktop 1) =
      (Inr None, after bare_desktop 1) \<and> after bare_desktop (Suc 1) = after bare_desktop 1"
    by (metis order_refl)
  then have b2: "after bare_desktop 2 = after bare_desktop 1"
    by (simp add: numeral_2_eq_2)
  have bq: "spawned (after bare_desktop 1) = queries"
    unfolding bare_desktop_first by simp
  from y1 y3 ys b1 bs b2 bq show ?thesis
    by simp
qed

lemma stable_answer: "stable w \<Longrightarrow> answer w t i = answer w t' i"
  by (simp add: stable_def answer_def)

lemma stable_probe: "stable w \<Longrightarrow> probe w t i = probe w 0 i"
  using stable_answer[of w t i 0] by (simp add: probe_def)

lemma resolved_again:
  assumes "stable w" "i < 3" "probe w 0 i = Some c" "usedStrategyIndex st = Some (int i)"
  shows "fst (getLinuxAccentColor w st) = Inr (Some c)"
proof -
  have "probe w (length (spawned st)) i = Some c"
    using assms(3) stable_probe[OF assms(1), of "length (spawned st)" i] by simp
  with assms(2) have "fst ((strategies ! i) w st) = Inr (Some c)"
    by (simp add: strategy_fst)
  then show ?thesis
    using resolved_call[OF assms(2) assms(4), of w] by simp
qed

text \<open>
  Claim C9.  In a stable environment, where a command line has the same outcome whenever it
  is run, a call and the call after it have the same result, whatever the state before the
  first of them: the same color, \<open>null\<close> twice, or the same error twice.
\<close>

theorem repeated_call_same_result:
  assumes "stable w"
  shows "fst (getLinuxAccentColor w (snd (getLinuxAccentColor w st))) =
         fst (getLinuxAccentColor w st)"
proof (cases "usedStrategyIndex st")
  case None
  have e: "probe w (length (spawned st)) 0 = probe w 0 0"
    "probe w (length (spawned st) + 1) 1 = probe w 0 1"
    "probe w (length (spawned st) + 2) 2 = probe w 0 2"
    by (rule stable_probe[OF assms])+
  note d = discovery[OF None, of w, unfolded Let_def e]
  show ?thesis
  proof (cases "probe w 0 0")
    case (Some c)
    with d have r: "getLinuxAccentColor w st =
      (Inr (Some c), \<lparr>usedStrategyIndex = Some 0, spawned = spawned st @ take 1 queries\<rparr>)"
      by simp
    show ?thesis
      unfolding r using resolved_again[OF assms _ Some, of "snd (getLinuxAccentColor w st)"]
      by (simp add: r)
  next
    case p0: None
    show ?thesis
    proof (cases "probe w 0 1")
      case (Some c)
      with d p0 have r: "getLinuxAccentColor w st =
        (Inr (Some c), \<lparr>usedStrategyIndex = Some 1, spawned = spawned st @ take 2 queries\<rparr>)"
        by simp
      show ?thesis
        unfolding r using resolved_again[OF assms _ Some, of "snd (getLinuxAccentColor w st)"]
        by (simp add: r)
    next
      case p1: None
      show ?thesis
      proof (cases "probe w 0 2")
        case (Some c)
        with d p0 p1 have r: "getLinuxAccentColor w st =
          (Inr (Some c), \<lparr>usedStrategyIndex = Some 2, spawned = spawned st @ take 3 queries\<rparr>)"
          by simp
        show ?thesis
          unfolding r using resolved_again[OF assms _ Some, of "snd (getLinuxAccentColor w st)"]
          by (simp add: r)
      next
        case p2: None
        with d p0 p1 have r: "getLinuxAccentColor w st =
          (Inr None, \<lparr>usedStrategyIndex = Some (- 1), spawned = spawned st @ take 3 queries\<rparr>)"
          by simp
        show ?thesis unfolding r by (simp add: exhausted_call)
      qed
    qed
  qed
next
  case (Some i)
  show ?thesis
  proof (cases "i = - 1")
    case True
    with Some show ?thesis by (simp add: exhausted_call)
  next
    case False
    show ?thesis
    proof (cases "0 \<le> i \<and> i < 3")
      case True
      define j where "j = nat i"
      with True have j: "j < 3" "i = int j" by auto
      with Some have s: "usedStrategyIndex st = Some (int j)" by simp
      define st' where "st' = st\<lparr>spawned := spawned st @ [queries ! j]\<rparr>"
      have s': "usedStrategyIndex st' = Some (int j)"
        using s by (simp add: st'_def)
      have 1: "getLinuxAccentColor w st = (strategies ! j) w st"
        by (rule resolved_call[OF j(1) s])
      have 2: "snd (getLinuxAccentColor w st) = st'"
        unfolding st'_def by (rule resolved_step[OF j(1) s])
      have 3: "getLinuxAccentColor w st' = (strategies ! j) w st'"
        by (rule resolved_call[OF j(1) s'])
      have 4: "answer w (length (spawned st')) j = answer w (length (spawned st)) j"
        by (rule stable_answer[OF assms])
      have "fst (getLinuxAccentColor w (snd (getLinuxAccentColor w st))) =
            fst ((strategies ! j) w st')"
        by (simp only: 2 3)
      also have "\<dots> = fst ((strategies ! j) w st)"
        unfolding strategy_at[OF j(1)] 4 by simp
      also have "\<dots> = fst (getLinuxAccentColor w st)"
        by (simp only: 1)
      finally show ?thesis .
    next
      case out: False
      with Some False have "getLinuxAccentColor w st = (Inl NotAFunction, st)"
        by (auto simp: getLinuxAccentColor_def length_strategies)
      then show ?thesis by simp
    qed
  qed
qed

theorem repeated_call_same_result_witness:
  "stable yaru_desktop
   \<and> fst (getLinuxAccentColor yaru_desktop (snd (getLinuxAccentColor yaru_desktop initial))) =
       Inr (Some (str ''#7764d8''))
   \<and> fst (getLinuxAccentColor yaru_desktop initial) = Inr (Some (str ''#7764d8''))"
proof -
  have h: "stable yaru_desktop"
    by (simp add: stable_def yaru_desktop_def)
  have "fst (getLinuxAccentColor yaru_desktop initial) = Inr (Some (str ''#7764d8''))"
    using discovery[of initial yaru_desktop]
    by (simp add: yaru_desktop_probes initial_def split: option.splits)
  with h repeated_call_same_result[OF h, of initial] show ?thesis by simp
qed

section \<open>The Portal strategy and its numbers\<close>

subsection \<open>Rounding\<close>

lemma rne_nonneg: "0 \<le> a \<Longrightarrow> 0 \<le> b \<Longrightarrow> 0 \<le> rne a b"
  by (auto simp: rne_def Let_def div_int_pos_iff intro: add_nonneg_nonneg)

lemma rne_le:
  assumes "0 < b" "a \<le> N * b"
  shows "rne a b \<le> N"
proof -
  have q: "a div b \<le> N"
    using assms by (metis zdiv_mono1 nonzero_mult_div_cancel_right less_irrefl)
  show ?thesis
  proof (cases "a div b < N")
    case True
    then show ?thesis by (auto simp: rne_def Let_def)
  next
    case False
    with q have e: "a div b = N" by simp
    have "a = b * (a div b) + a mod b" by simp
    with e assms(2) have "a mod b \<le> 0" by (simp add: mult.commute)
    moreover have "0 \<le> a mod b" using assms(1) by simp
    ultimately have "a mod b = 0" by simp
    with assms(1) e show ?thesis by (simp add: rne_def Let_def)
  qed
qed

lemma log2_up_le: "0 < d \<Longrightarrow> d \<le> n \<Longrightarrow> 2 ^ log2_up n d * d \<le> n"
proof (induction n d rule: log2_up.induct)
  case (1 n d)
  show ?case
  proof (cases "d = 0 \<or> n < 2 * d")
    case True
    with "1.prems" show ?thesis by (subst log2_up.simps) simp
  next
    case False
    with "1.IH" "1.prems" have "2 ^ log2_up n (2 * d) * (2 * d) \<le> n" by simp
    with False show ?thesis by (subst log2_up.simps) (simp add: ac_simps)
  qed
qed

lemma floor_log2_bound:
  assumes "0 < d" "n \<le> 255 * d"
  shows "floor_log2 n d \<le> 7"
proof (cases "d \<le> n")
  case True
  from log2_up_le[OF assms(1) True] assms(2) have "2 ^ log2_up n d * d \<le> 255 * d" by simp
  with assms(1) have le: "(2::nat) ^ log2_up n d \<le> 255" by simp
  have "log2_up n d \<le> 7"
  proof (rule ccontr)
    assume "\<not> log2_up n d \<le> 7"
    then have "8 \<le> log2_up n d" by simp
    then have "(2::nat) ^ 8 \<le> 2 ^ log2_up n d" by (rule power_increasing) simp
    with le show False by simp
  qed
  with True show ?thesis by (simp add: floor_log2_def)
next
  case False
  then show ?thesis by (simp add: floor_log2_def)
qed

lemma round_double_byte:
  assumes "0 < d" "n \<le> 255 * d"
  shows "\<exists>k. math_floor (round_double n d) = FInt k \<and> 0 \<le> k \<and> k \<le> 255"
proof (cases "n = 0")
  case True
  then show ?thesis by (simp add: round_double_def)
next
  case False
  define x where "x = max (floor_log2 n d) (- 1022) - 52"
  define j where "j = nat (- x)"
  define m where "m = rne (int n * 2 ^ j) (int d)"
  from floor_log2_bound[OF assms] have x: "x < 0" by (simp add: x_def)
  then have r: "round_double n d = Fin m x"
    using False by (simp add: round_double_def Let_def x_def[symmetric] m_def j_def)
  have "int n * 2 ^ j \<le> (255 * 2 ^ j) * int d"
    using assms(2) by (simp add: ac_simps)
  with assms(1) have hi: "m \<le> 255 * 2 ^ j" unfolding m_def by (intro rne_le) simp_all
  have lo: "0 \<le> m" unfolding m_def by (intro rne_nonneg) simp_all
  have f: "math_floor (Fin m x) = FInt (m div 2 ^ j)"
    using x by (simp add: j_def)
  have "m div 2 ^ j \<le> 255"
    using hi by (metis zdiv_mono1 nonzero_mult_div_cancel_right zero_less_power zero_less_numeral less_irrefl)
  moreover have "0 \<le> m div 2 ^ j" using lo by (simp add: div_int_pos_iff)
  ultimately show ?thesis using r f by simp
qed

lemma js_mul_255:
  assumes "0 \<le> m" "\<not> js_lt (Fin 1 0) (Fin m e)"
  shows "\<exists>k. math_floor (js_mul (Fin m e) (Fin 255 0)) = FInt k \<and> 0 \<le> k \<and> k \<le> 255"
proof (cases "0 \<le> e")
  case True
  with assms(2) have "m * 2 ^ nat e \<le> 1" by (simp add: Let_def min_def)
  then have "255 * (m * 2 ^ nat e) \<le> 255" by simp
  then have "int (nat (m * 255) * 2 ^ nat e) \<le> int (255 * 1)"
    using assms(1) by (simp add: ac_simps)
  then have "nat (m * 255) * 2 ^ nat e \<le> 255 * 1"
    by (simp only: of_nat_le_iff)
  from round_double_byte[OF _ this] True assms(1) show ?thesis
    by (simp add: Let_def with_sign_def mult_less_0_iff abs_of_nonneg)
next
  case False
  with assms(2) have "m \<le> 2 ^ nat (- e)" by (simp add: Let_def min_def)
  then have "nat (m * 255) \<le> 255 * 2 ^ nat (- e)"
    using assms(1) by (simp add: nat_le_iff)
  from round_double_byte[OF _ this] False assms(1) show ?thesis
    by (simp add: Let_def with_sign_def mult_less_0_iff abs_of_nonneg)
qed

lemma js_lt_zero: "nonnegative v \<Longrightarrow> \<not> js_lt v (Fin 0 0)"
  by (cases v) (simp_all add: nonnegative_def Let_def not_less)

lemma hex_byte:
  assumes "n \<le> 255"
  shows "padStart 2 (str ''0'') (toString16 (FInt (int n))) = byte_hex n"
proof (cases "n < 16")
  case True
  then show ?thesis
    by (simp add: padStart_def byte_hex_def str_def hex_digit_def)
next
  case False
  with assms have "n div 16 < 16" by simp
  with False show ?thesis
    by (subst toString16.simps) (simp add: padStart_def byte_hex_def)
qed

lemma hex_digit_lower: "d < 16 \<Longrightarrow> is_hex_lower (hex_digit d)"
  unfolding is_hex_lower_def hex_digit_def by (rule nth_mem) (simp add: str_def)

subsection \<open>The matches of the portal pattern\<close>

lemma in_run_Many1:
  "(c', e) \<in> set (run inp (Many1 P) (c, s)) \<longleftrightarrow> c' = c \<and> e \<in> set (many1_ends P s)"
  by auto

lemma many1_ends_first:
  "e \<in> set (many1_ends P s) \<Longrightarrow> \<exists>x r pre. s = x # r \<and> P x \<and> r = pre @ e"
proof (induction s)
  case Nil
  then show ?case by simp
next
  case (Cons x s)
  show ?case
  proof (cases "P x")
    case True
    with Cons.prems have "e \<in> set (many1_ends P s) \<or> e = s" by auto
    then show ?thesis
    proof
      assume "e \<in> set (many1_ends P s)"
      from many1_ends_suffix[OF this] True show ?thesis by auto
    next
      assume "e = s"
      with True show ?thesis by auto
    qed
  next
    case False
    with Cons.prems show ?thesis by simp
  qed
qed

text \<open>Group 1 of a match of the portal pattern starts with a digit.\<close>

lemma double_capture:
  assumes "(c', e) \<in> set (run inp re_double (c, s))"
  shows "\<exists>d t. c' = Some (d # t) \<and> isDigit d"
proof -
  from assms obtain c0 s0 where
    g: "(c', e) \<in> set (run inp (Group (Seq (Many1 isDigit)
          (Opt (Seq (Chars (\<lambda>c. c = 44 \<or> c = 46)) (Many1 isDigit))))) (c0, s0))"
    unfolding re_double_def by (auto simp: in_run_Seq simp del: run.simps)
  then obtain c2 where
    i: "(c2, e) \<in> set (run inp (Seq (Many1 isDigit)
          (Opt (Seq (Chars (\<lambda>c. c = 44 \<or> c = 46)) (Many1 isDigit)))) (c0, s0))"
    and c': "c' = Some (take (length s0 - length e) s0)"
    by (auto simp: in_run_Group simp del: run.simps)
  from i obtain c1 e1 where
    m: "(c1, e1) \<in> set (run inp (Many1 isDigit) (c0, s0))"
    and o: "(c2, e) \<in> set (run inp (Opt (Seq (Chars (\<lambda>c. c = 44 \<or> c = 46)) (Many1 isDigit)))
              (c1, e1))"
    by (auto simp: in_run_Seq simp del: run.simps)
  from m have "e1 \<in> set (many1_ends isDigit s0)" by auto
  from many1_ends_first[OF this] obtain d r pre where
    s0: "s0 = d # r" "isDigit d" "r = pre @ e1" by blast
  from run_suffix[OF o] obtain mid where "e1 = mid @ e" by blast
  with s0 have "length e < length s0" by simp
  with s0(1) have "take (length s0 - length e) s0 = d # take (length s0 - length e - 1) r"
    by (cases "length s0 - length e") simp_all
  with c' s0(2) show ?thesis by blast
qed

lemma matchAll_from_run:
  "(\<And>b c e. (c, e) \<in> set (run inp r (None, b)) \<Longrightarrow> Q c) \<Longrightarrow>
     m \<in> set (matchAll_from inp r s) \<Longrightarrow> Q m"
proof (induction inp r s rule: matchAll_from.induct)
  case (1 inp r s)
  show ?case
  proof (cases "exec_from inp r s")
    case None
    with "1.prems"(2) show ?thesis by (simp add: matchAll_from.simps)
  next
    case (Some a)
    obtain b c e where a: "a = (b, c, e)" by (cases a) auto
    from exec_from_Some[of inp r s b c e] Some a
    have r: "(c, e) \<in> set (run inp r (None, b))" by simp
    from "1.prems"(2) Some a consider (here) "m = c"
      | (later) "length e < length b" "m \<in> set (matchAll_from inp r e)"
      | (skip) x e' where "\<not> length e < length b" "e = x # e'"
          "m \<in> set (matchAll_from inp r e')"
      by (subst (asm) matchAll_from.simps) (auto split: if_splits list.splits)
    then show ?thesis
    proof cases
      case here
      with "1.prems"(1)[OF r] show ?thesis by simp
    next
      case later
      from "1.IH"(1)[OF Some a[symmetric] refl later(1) "1.prems"(1) later(2)]
      show ?thesis .
    next
      case skip
      from "1.IH"(2)[OF Some a[symmetric] refl skip(1) skip(2) "1.prems"(1) skip(3)]
      show ?thesis .
    qed
  qed
qed

lemma matchAll_capture:
  assumes "m \<in> set (matchAll s re_double)"
  shows "\<exists>d t. m = Some (d # t) \<and> isDigit d"
  using assms unfolding matchAll_def
  by (rule matchAll_from_run[rotated]) (rule double_capture)

lemma round_double_nonnegative: "nonnegative (round_double n d)"
  by (auto simp: round_double_def nonnegative_def Let_def intro!: rne_nonneg)

lemma digit_not_space: "isDigit d \<Longrightarrow> \<not> isWhiteSpace d"
  by (auto simp: isDigit_def isWhiteSpace_def)

text \<open>\<open>parseFloat\<close> of a string that starts with a digit is not negative and not NaN.\<close>

lemma parseFloat_digit:
  assumes "isDigit d"
  shows "nonnegative (parseFloat (d # t))"
proof -
  from assms have d: "d \<noteq> 45" "d \<noteq> 43" "d \<noteq> 73"
    by (auto simp: isDigit_def)
  have i: "strip_prefix (str ''Infinity'') (d # t) = None"
    using d by (simp add: str_def)
  show ?thesis
    using assms d digit_not_space[OF assms]
    by (simp add: parseFloat_def Let_def i with_sign_def round_double_nonnegative)
qed

subsection \<open>The color of a reply\<close>

lemma range_check:
  assumes "nonnegative v"
  shows "\<not> (js_lt v (Fin 0 0) \<or> js_lt (Fin 1 0) v) \<longleftrightarrow> in_unit_interval v"
proof (cases v)
  case (Fin m e)
  with assms have "0 \<le> m" by (simp add: nonnegative_def)
  with Fin show ?thesis
    by (auto simp: in_unit_interval_def Let_def min_def not_less)
qed (use assms in \<open>simp_all add: nonnegative_def in_unit_interval_def\<close>)

lemma channel_byte:
  assumes "in_unit_interval v"
  shows "math_floor (js_mul v (Fin 255 0)) = FInt (int (channel v)) \<and> channel v \<le> 255"
proof -
  from assms obtain m e where v: "v = Fin m e" and m: "0 \<le> m"
    by (cases v) (simp_all add: in_unit_interval_def)
  from assms v have "nonnegative v" by (simp add: nonnegative_def in_unit_interval_def)
  from range_check[OF this] assms v have "\<not> js_lt (Fin 1 0) (Fin m e)" by simp
  from js_mul_255[OF m this] obtain k where
    "math_floor (js_mul (Fin m e) (Fin 255 0)) = FInt k" "0 \<le> k" "k \<le> 255" by blast
  with v show ?thesis by (simp add: channel_def)
qed

lemma channel_hex:
  assumes "in_unit_interval v"
  shows "padStart 2 (str ''0'') (toString16 (math_floor (js_mul v (Fin 255 0)))) =
         byte_hex (channel v)"
  using channel_byte[OF assms] hex_byte[of "channel v"] by simp

lemma hex_loop_Some:
  assumes "\<forall>m\<in>set ms. nonnegative (parseFloat (group1 m))"
  shows "hex_loop ms hex = Some c \<longleftrightarrow>
     (\<forall>m\<in>set ms. in_unit_interval (parseFloat (group1 m))) \<and>
     c = hex @ concat (map (\<lambda>m. byte_hex (channel (parseFloat (group1 m)))) ms)"
  using assms
proof (induction ms arbitrary: hex)
  case Nil
  show ?case by auto
next
  case (Cons m ms)
  from Cons.prems have n: "nonnegative (parseFloat (group1 m))" by simp
  show ?case
  proof (cases "in_unit_interval (parseFloat (group1 m))")
    case True
    with range_check[OF n] have
      "\<not> (js_lt (parseFloat (group1 m)) (Fin 0 0) \<or> js_lt (Fin 1 0) (parseFloat (group1 m)))"
      by simp
    with True Cons.IH[of "hex @ byte_hex (channel (parseFloat (group1 m)))"] Cons.prems
    show ?thesis by (simp add: Let_def channel_hex)
  next
    case False
    with range_check[OF n] have
      "js_lt (parseFloat (group1 m)) (Fin 0 0) \<or> js_lt (Fin 1 0) (parseFloat (group1 m))"
      by simp
    with False show ?thesis by (simp add: Let_def)
  qed
qed

lemma capture_nonnegative:
  "m \<in> set (matchAll s re_double) \<Longrightarrow> nonnegative (parseFloat (group1 m))"
  using matchAll_capture[of m s] parseFloat_digit by (auto simp: group1_def)

lemma byte_hex_lower: "n \<le> 255 \<Longrightarrow> \<forall>x\<in>set (byte_hex n). is_hex_lower x"
  by (simp add: byte_hex_def hex_digit_lower)

lemma portal_Some:
  "xdgDesktopPortal_parse output = Some c \<longleftrightarrow>
     length (matchAll (trim output) re_double) = 3 \<and>
     (\<forall>m\<in>set (matchAll (trim output) re_double). in_unit_interval (parseFloat (group1 m))) \<and>
     c = str ''#'' @ concat (map (\<lambda>m. byte_hex (channel (parseFloat (group1 m))))
                             (matchAll (trim output) re_double))"
  using hex_loop_Some[of "matchAll (trim output) re_double" "str ''#''" c] capture_nonnegative
  by (auto simp: xdgDesktopPortal_parse_def Let_def)

lemma portal_shape:
  assumes "length ms = 3" "\<forall>m\<in>set ms. in_unit_interval (parseFloat (group1 m))"
  defines "c \<equiv> str ''#'' @ concat (map (\<lambda>m. byte_hex (channel (parseFloat (group1 m)))) ms)"
  shows "length c = 7 \<and> hd c = 35 \<and> (\<forall>x\<in>set (tl c). is_hex_lower x)"
proof -
  from assms(1) obtain r g b where ms: "ms = [r, g, b]"
    by (cases ms; cases "tl ms"; cases "tl (tl ms)") auto
  with assms(2) channel_byte have "channel (parseFloat (group1 r)) \<le> 255"
    "channel (parseFloat (group1 g)) \<le> 255" "channel (parseFloat (group1 b)) \<le> 255"
    by auto
  with ms show ?thesis
    using byte_hex_lower by (auto simp: c_def str_def byte_hex_def)
qed

text \<open>
  What the Portal strategy computes.  It returns a color exactly when the pattern
  \<^verbatim>\<open>/double\s+(\d+(?:[,.]\d+)?)/g\<close> has exactly three matches in the output and the Number
  \<open>parseFloat(match[1])\<close> read from each of them lies in the closed range from 0 to 1;
  with another number of matches, or one such Number outside the range, the result is
  \<open>null\<close>.  A color returned is \<open>#\<close> followed, for each match in order, by the
  two lowercase hexadecimal digits of \<open>Math.floor(value * 255)\<close>, which is an integer from
  0 to 255: seven code units in all.  For a match written with a comma the Number read is
  not the value of the token: see the end of this section.
\<close>

lemma portal_color:
  "(xdgDesktopPortal_parse output \<noteq> None \<longleftrightarrow>
      length (matchAll (trim output) re_double) = 3 \<and>
      (\<forall>m\<in>set (matchAll (trim output) re_double). in_unit_interval (parseFloat (group1 m))))
   \<and> (\<forall>c. xdgDesktopPortal_parse output = Some c \<longrightarrow>
        c = str ''#'' @ concat (map (\<lambda>m. byte_hex (channel (parseFloat (group1 m))))
                                (matchAll (trim output) re_double))
        \<and> (\<forall>m\<in>set (matchAll (trim output) re_double).
              math_floor (js_mul (parseFloat (group1 m)) (Fin 255 0)) =
                FInt (int (channel (parseFloat (group1 m))))
              \<and> channel (parseFloat (group1 m)) \<le> 255)
        \<and> length c = 7 \<and> hd c = 35 \<and> (\<forall>x\<in>set (tl c). is_hex_lower x))"
proof -
  have 1: "xdgDesktopPortal_parse output \<noteq> None \<longleftrightarrow>
      length (matchAll (trim output) re_double) = 3 \<and>
      (\<forall>m\<in>set (matchAll (trim output) re_double). in_unit_interval (parseFloat (group1 m)))"
    using portal_Some[of "output"] by (cases "xdgDesktopPortal_parse output") auto
  have 2: "c = str ''#'' @ concat (map (\<lambda>m. byte_hex (channel (parseFloat (group1 m))))
                                (matchAll (trim output) re_double))
        \<and> (\<forall>m\<in>set (matchAll (trim output) re_double).
              math_floor (js_mul (parseFloat (group1 m)) (Fin 255 0)) =
                FInt (int (channel (parseFloat (group1 m))))
              \<and> channel (parseFloat (group1 m)) \<le> 255)
        \<and> length c = 7 \<and> hd c = 35 \<and> (\<forall>x\<in>set (tl c). is_hex_lower x)"
    if "xdgDesktopPortal_parse output = Some c" for c
  proof -
    from that portal_Some[of "output" c] have
      l: "length (matchAll (trim output) re_double) = 3" and
      u: "\<forall>m\<in>set (matchAll (trim output) re_double). in_unit_interval (parseFloat (group1 m))" and
      c: "c = str ''#'' @ concat (map (\<lambda>m. byte_hex (channel (parseFloat (group1 m))))
                                (matchAll (trim output) re_double))"
      by simp_all
    from portal_shape[OF l u] c u channel_byte show ?thesis by simp
  qed
  from 1 2 show ?thesis by blast
qed

lemmas number_eval =
  parseFloat_def digits_val_def parse_exponent_def signed_digits_def round_double_def
  floor_log2_def rne_def with_sign_def Let_def hex_digit_def padStart_def group1_def
  isDigit_def isWhiteSpace_def str_def

lemmas portal_eval =
  number_eval trim_def matchAll_def matchAll_from.simps re_double_def xdgDesktopPortal_parse_def

lemma portal_reply_matches:
  "matchAll (trim portal_reply) re_double =
     [Some (str ''0.92''), Some (str ''0.33''), Some (str ''0.13'')]"
  by (simp add: portal_reply_def portal_eval)

lemma hex_loop_example:
  "hex_loop [Some (str ''0.92''), Some (str ''0.33''), Some (str ''0.13'')] (str ''#'') =
     Some (str ''#ea5421'')"
  by (simp add: number_eval)

lemma bright_reply_matches:
  "matchAll (trim bright_reply) re_double =
     [Some (str ''1.5''), Some (str ''0.5''), Some (str ''0.5'')]"
  by (simp add: bright_reply_def portal_eval)

lemma bright_reply_null: "xdgDesktopPortal_parse bright_reply = None"
  by (simp add: xdgDesktopPortal_parse_def bright_reply_matches Let_def)
     (simp add: number_eval)

lemma parseFloat_examples:
  "parseFloat (str ''0.92'') = Fin 8286623314361713 (- 53)"
  "parseFloat (str ''1.5'') = Fin 6755399441055744 (- 52)"
  "parseFloat (str ''0,92'') = Fin 0 0"
  by (simp_all add: number_eval)

lemma portal_color_witness:
  "xdgDesktopPortal_parse portal_reply = Some (str ''#ea5421'')
   \<and> length (matchAll (trim portal_reply) re_double) = 3
   \<and> in_unit_interval (parseFloat (str ''0.92''))
   \<and> math_floor (js_mul (parseFloat (str ''0.92'')) (Fin 255 0)) = FInt 234
   \<and> length (str ''#ea5421'') = 7
   \<and> xdgDesktopPortal_parse bright_reply = None
   \<and> \<not> in_unit_interval (parseFloat (str ''1.5''))"
proof -
  have p: "xdgDesktopPortal_parse portal_reply = Some (str ''#ea5421'')"
    by (simp add: xdgDesktopPortal_parse_def portal_reply_matches Let_def hex_loop_example
        del: hex_loop.simps)
  have c: "channel (parseFloat (str ''0.92'')) = 234"
    by (simp add: channel_def number_eval)
  have m: "Some (str ''0.92'') \<in> set (matchAll (trim portal_reply) re_double)"
    "Some (str ''1.5'') \<in> set (matchAll (trim bright_reply) re_double)"
    by (simp_all add: portal_reply_matches bright_reply_matches)
  note a = portal_color[of "portal_reply"]
  from a p have "length (matchAll (trim portal_reply) re_double) = 3 \<and>
      (\<forall>m\<in>set (matchAll (trim portal_reply) re_double).
          in_unit_interval (parseFloat (group1 m)))"
    by simp
  then have l: "length (matchAll (trim portal_reply) re_double) = 3"
    and u: "\<forall>m\<in>set (matchAll (trim portal_reply) re_double).
              in_unit_interval (parseFloat (group1 m))"
    by blast+
  note a2 = a[THEN conjunct2, rule_format, OF p]
  then have f: "\<forall>m\<in>set (matchAll (trim portal_reply) re_double).
              math_floor (js_mul (parseFloat (group1 m)) (Fin 255 0)) =
                FInt (int (channel (parseFloat (group1 m))))"
    and s: "length (str ''#ea5421'') = 7"
    by blast+
  from u m(1) have 1: "in_unit_interval (parseFloat (str ''0.92''))"
    by (auto simp: group1_def)
  from f m(1) c have 2: "math_floor (js_mul (parseFloat (str ''0.92'')) (Fin 255 0)) = FInt 234"
    by (auto simp: group1_def)
  have 3: "\<not> in_unit_interval (parseFloat (str ''1.5''))"
    by (simp add: parseFloat_examples in_unit_interval_def)
  from p l 1 2 s bright_reply_null 3 show ?thesis by blast
qed

text \<open>
  Claim C10.  Group 1 of every match of the portal pattern starts with a digit, so the value
  read from it is not negative and the test \<open>value < 0.0\<close> is false for it, whatever the
  output of the command.  When the output has three matches and the result is \<open>null\<close>,
  one of the values is greater than 1.
\<close>

theorem portal_values_unsigned:
  "(\<forall>m\<in>set (matchAll (trim out) re_double).
      (\<exists>d t. m = Some (d # t) \<and> isDigit d)
      \<and> nonnegative (parseFloat (group1 m))
      \<and> \<not> js_lt (parseFloat (group1 m)) (Fin 0 0))
   \<and> (length (matchAll (trim out) re_double) = 3 \<and> xdgDesktopPortal_parse out = None \<longrightarrow>
        (\<exists>m\<in>set (matchAll (trim out) re_double). js_lt (Fin 1 0) (parseFloat (group1 m))))"
proof -
  have 1: "(\<exists>d t. m = Some (d # t) \<and> isDigit d)
      \<and> nonnegative (parseFloat (group1 m))
      \<and> \<not> js_lt (parseFloat (group1 m)) (Fin 0 0)"
    if "m \<in> set (matchAll (trim out) re_double)" for m
    using that matchAll_capture[OF that] capture_nonnegative[OF that] js_lt_zero by blast
  have 2: "\<exists>m\<in>set (matchAll (trim out) re_double). js_lt (Fin 1 0) (parseFloat (group1 m))"
    if l: "length (matchAll (trim out) re_double) = 3" and n: "xdgDesktopPortal_parse out = None"
  proof (rule ccontr)
    assume "\<not> ?thesis"
    then have "\<forall>m\<in>set (matchAll (trim out) re_double).
        \<not> (js_lt (parseFloat (group1 m)) (Fin 0 0) \<or> js_lt (Fin 1 0) (parseFloat (group1 m)))"
      using 1 by blast
    then have "\<forall>m\<in>set (matchAll (trim out) re_double). in_unit_interval (parseFloat (group1 m))"
      using range_check capture_nonnegative by blast
    with l portal_Some[of out "str ''#'' @ concat (map (\<lambda>m. byte_hex (channel (parseFloat (group1 m))))
        (matchAll (trim out) re_double))"] n
    show False by simp
  qed
  from 1 2 show ?thesis by blast
qed

theorem portal_values_unsigned_witness:
  "length (matchAll (trim bright_reply) re_double) = 3
   \<and> xdgDesktopPortal_parse bright_reply = None
   \<and> Some (str ''1.5'') \<in> set (matchAll (trim bright_reply) re_double)
   \<and> nonnegative (parseFloat (str ''1.5''))
   \<and> \<not> js_lt (parseFloat (str ''1.5'')) (Fin 0 0)
   \<and> js_lt (Fin 1 0) (parseFloat (str ''1.5''))"
proof -
  have m: "Some (str ''1.5'') \<in> set (matchAll (trim bright_reply) re_double)"
    and l: "length (matchAll (trim bright_reply) re_double) = 3"
    by (simp_all add: bright_reply_matches)
  from portal_values_unsigned[of bright_reply] m
  have "nonnegative (parseFloat (str ''1.5''))" "\<not> js_lt (parseFloat (str ''1.5'')) (Fin 0 0)"
    by (auto simp: group1_def)
  moreover have "js_lt (Fin 1 0) (parseFloat (str ''1.5''))"
    by (simp add: parseFloat_examples Let_def)
  ultimately show ?thesis using m l bright_reply_null by blast
qed

text \<open>
  Claim C6, as amended.  When the matches of the portal pattern in the reply are
  \<open>double 0.92\<close>, \<open>double 0.33\<close> and \<open>double 0.13\<close>, the Portal strategy returns
  \<open>#ea5421\<close>: the channels are 234, 84 and 33.  The counterexample shows that the result
  is not the \<open>#ea5521\<close> of the claim.
\<close>

theorem portal_example:
  assumes "matchAll (trim out) re_double =
     [Some (str ''0.92''), Some (str ''0.33''), Some (str ''0.13'')]"
  shows "xdgDesktopPortal_parse out = Some (str ''#ea5421'')"
  using assms
  by (simp add: xdgDesktopPortal_parse_def Let_def hex_loop_example del: hex_loop.simps)

theorem portal_example_witness:
  "matchAll (trim portal_reply) re_double =
     [Some (str ''0.92''), Some (str ''0.33''), Some (str ''0.13'')]
   \<and> xdgDesktopPortal_parse portal_reply = Some (str ''#ea5421'')"
  using portal_example[OF portal_reply_matches] portal_reply_matches by simp

theorem portal_example_counterexample:
  "matchAll (trim portal_reply) re_double =
     [Some (str ''0.92''), Some (str ''0.33''), Some (str ''0.13'')]
   \<and> xdgDesktopPortal_parse portal_reply \<noteq> Some (str ''#ea5521'')"
proof -
  have "xdgDesktopPortal_parse portal_reply = Some (str ''#ea5421'')"
    by (simp add: xdgDesktopPortal_parse_def portal_reply_matches Let_def hex_loop_example
        del: hex_loop.simps)
  moreover have "str ''#ea5421'' \<noteq> str ''#ea5521''" by (simp add: str_def)
  ultimately show ?thesis using portal_reply_matches by simp
qed

text \<open>
  Claim C5 fails on the code.  The pattern accepts a comma as the decimal separator, but
  \<open>parseFloat\<close> stops reading at the comma: \<open>0,92\<close> is read as 0, and the reply
  with commas gives \<open>#000000\<close> where the same reply with points gives \<open>#ea5421\<close>.
\<close>

theorem comma_fraction_dropped:
  "matchAll (trim comma_reply) re_double =
     [Some (str ''0,92''), Some (str ''0,33''), Some (str ''0,13'')]
   \<and> parseFloat (str ''0,92'') = Fin 0 0
   \<and> xdgDesktopPortal_parse comma_reply = Some (str ''#000000'')
   \<and> xdgDesktopPortal_parse portal_reply = Some (str ''#ea5421'')"
proof -
  have 1: "matchAll (trim comma_reply) re_double =
     [Some (str ''0,92''), Some (str ''0,33''), Some (str ''0,13'')]"
    by (simp add: comma_reply_def portal_eval)
  have 2: "parseFloat (str ''0,92'') = Fin 0 0"
    by (simp add: number_eval)
  have 3: "xdgDesktopPortal_parse comma_reply = Some (str ''#000000'')"
    by (simp add: xdgDesktopPortal_parse_def 1 Let_def) (simp add: number_eval)
  have 4: "xdgDesktopPortal_parse portal_reply = Some (str ''#ea5421'')"
    by (simp add: xdgDesktopPortal_parse_def portal_reply_matches Let_def hex_loop_example
        del: hex_loop.simps)
  from 1 2 3 4 show ?thesis by blast
qed

text \<open>
  Claim C4 fails on the code, by the same reading of the comma.  The reply
  \<open>double 1,5 double 0,5 double 0,5\<close> has exactly three tokens, and the value of the
  first, 1,5, is above 1, so the claim requires \<open>null\<close>, which is the result for the same
  reply written with points.  The code reads the first token as 1 and the other two as 0,
  finds the three Numbers in range and returns \<open>#ff0000\<close>.
\<close>

theorem comma_value_accepted:
  "matchAll (trim bright_comma_reply) re_double =
     [Some (str ''1,5''), Some (str ''0,5''), Some (str ''0,5'')]
   \<and> parseFloat (str ''1,5'') = parseFloat (str ''1'')
   \<and> in_unit_interval (parseFloat (str ''1,5''))
   \<and> xdgDesktopPortal_parse bright_comma_reply = Some (str ''#ff0000'')
   \<and> js_lt (Fin 1 0) (parseFloat (str ''1.5''))
   \<and> xdgDesktopPortal_parse bright_reply = None"
proof -
  have 0: "matchAll (trim bright_comma_reply) re_double =
     [Some (str ''1,5''), Some (str ''0,5''), Some (str ''0,5'')]"
    by (simp add: bright_comma_reply_def portal_eval)
  have 1: "parseFloat (str ''1,5'') = parseFloat (str ''1'')"
    by (simp add: number_eval)
  have 2: "in_unit_interval (parseFloat (str ''1,5''))"
    by (simp add: number_eval in_unit_interval_def)
  have 3: "xdgDesktopPortal_parse bright_comma_reply = Some (str ''#ff0000'')"
    by (simp add: xdgDesktopPortal_parse_def 0 Let_def) (simp add: number_eval)
  have 4: "js_lt (Fin 1 0) (parseFloat (str ''1.5''))"
    by (simp add: parseFloat_examples Let_def)
  from 0 1 2 3 4 bright_reply_null show ?thesis by blast
qed

section \<open>Overlapping calls\<close>

text \<open>
  The dispatcher reads \<open>usedStrategyIndex\<close> when a call starts (line 26) and writes it
  when the discovery of that call ends (lines 45 and 54), after the \<open>await\<close> of line 42.
  This section relates the calls in flight to the calls of the sections above, and then
  lets two calls overlap.
\<close>

text \<open>A strategy is its \<open>launch\<close> followed by its \<open>finish\<close>.\<close>

lemma strategy_halves:
  assumes "i < 3"
  shows "(strategies ! i) w st = (finish i (fst (launch w i st)), snd (launch w i st))"
  using assms
  by (simp add: strategy_at finish_def close_handler_def launch_def answer_def
      transport_failure_def split: option.splits)

lemma probe_finish:
  "probe w (length (spawned st)) i =
     (case finish i (fst (launch w i st)) of Inr (Some c) \<Rightarrow> Some c | _ \<Rightarrow> None)"
  by (simp add: probe_def finish_def close_handler_def launch_def answer_def
      transport_failure_def split: option.splits)

text \<open>The \<open>close\<close> event of the child that the last call waits for.\<close>

lemma step_probe_found:
  assumes "finish i ch = Inr (Some c)"
  shows "step w (s, cs @ [Waiting Probe i ch]) (Close (length cs)) =
         (s\<lparr>usedStrategyIndex := Some (int i)\<rparr>, cs @ [Done (Inr (Some c))])"
  using assms by simp

lemma step_probe_next:
  assumes "\<And>c. finish i ch \<noteq> Inr (Some c)" "Suc i < 3"
  shows "step w (s, cs @ [Waiting Probe i ch]) (Close (length cs)) =
         (snd (launch w (Suc i) s), cs @ [Waiting Probe (Suc i) (fst (launch w (Suc i) s))])"
  using assms by (auto simp: length_strategies split: sum.splits option.splits)

lemma step_probe_last:
  assumes "\<And>c. finish i ch \<noteq> Inr (Some c)" "\<not> Suc i < 3"
  shows "step w (s, cs @ [Waiting Probe i ch]) (Close (length cs)) =
         (s\<lparr>usedStrategyIndex := Some (- 1)\<rparr>, cs @ [Done (Inr None)])"
  using assms by (auto simp: length_strategies split: sum.splits option.splits)

lemma step_done:
  "step w (s, cs @ [Done r]) (Close (length cs)) = (s, cs @ [Done r])"
  by simp

lemma probe_None:
  "probe w (length (spawned st)) i = None \<longleftrightarrow>
     (\<forall>c. finish i (fst (launch w i st)) \<noteq> Inr (Some c))"
  by (simp add: probe_finish split: sum.splits option.splits)

lemma probe_Some:
  "probe w (length (spawned st)) i = Some c \<longleftrightarrow>
     finish i (fst (launch w i st)) = Inr (Some c)"
  by (simp add: probe_finish split: sum.splits option.splits)

text \<open>
  A call that is awaited, with no other call or event before its end, is the call of the
  sequential model: it spawns at most three children.
\<close>

lemma awaited_call:
  "run_events w [Call, Close (length cs), Close (length cs), Close (length cs)] (st, cs) =
     (snd (getLinuxAccentColor w st), cs @ [Done (fst (getLinuxAccentColor w st))])"
proof (cases "usedStrategyIndex st")
  case None
  define n where "n = length (spawned st)"
  define s1 where "s1 = snd (launch w 0 st)"
  define s2 where "s2 = snd (launch w (Suc 0) s1)"
  define s3 where "s3 = snd (launch w (Suc (Suc 0)) s2)"
  define c0 where "c0 = fst (launch w 0 st)"
  define c1 where "c1 = fst (launch w (Suc 0) s1)"
  define c2 where "c2 = fst (launch w (Suc (Suc 0)) s2)"
  have len: "length (spawned s1) = Suc n" "length (spawned s2) = Suc (Suc n)"
    by (simp_all add: s1_def s2_def launch_def n_def)
  have q: "take 1 queries = [queries ! 0]" "take 2 queries = [queries ! 0, queries ! Suc 0]"
    "take 3 queries = [queries ! 0, queries ! Suc 0, queries ! Suc (Suc 0)]"
    by (simp_all add: queries_def)
  have r: "s1\<lparr>usedStrategyIndex := Some 0\<rparr> =
      \<lparr>usedStrategyIndex = Some 0, spawned = spawned st @ take 1 queries\<rparr>"
    "s2\<lparr>usedStrategyIndex := Some 1\<rparr> =
      \<lparr>usedStrategyIndex = Some 1, spawned = spawned st @ take 2 queries\<rparr>"
    "s3\<lparr>usedStrategyIndex := Some 2\<rparr> =
      \<lparr>usedStrategyIndex = Some 2, spawned = spawned st @ take 3 queries\<rparr>"
    "s3\<lparr>usedStrategyIndex := Some (- 1)\<rparr> =
      \<lparr>usedStrategyIndex = Some (- 1), spawned = spawned st @ take 3 queries\<rparr>"
    unfolding q by (cases st; simp add: s1_def s2_def s3_def launch_def)+
  have start: "step w (st, cs) Call = (s1, cs @ [Waiting Probe 0 c0])"
    using None by (simp add: s1_def c0_def)
  have p0: "probe w n 0 = None \<longleftrightarrow> (\<forall>c. finish 0 c0 \<noteq> Inr (Some c))"
    "probe w n 0 = Some c \<longleftrightarrow> finish 0 c0 = Inr (Some c)" for c
    unfolding n_def c0_def by (rule probe_None, rule probe_Some)
  have p1: "probe w (n + 1) 1 = None \<longleftrightarrow> (\<forall>c. finish (Suc 0) c1 \<noteq> Inr (Some c))"
    "probe w (n + 1) 1 = Some c \<longleftrightarrow> finish (Suc 0) c1 = Inr (Some c)" for c
    using probe_None[of w s1 "Suc 0"] probe_Some[of w s1 "Suc 0" c]
    by (simp_all add: len c1_def)
  have p2: "probe w (n + 2) 2 = None \<longleftrightarrow> (\<forall>c. finish (Suc (Suc 0)) c2 \<noteq> Inr (Some c))"
    "probe w (n + 2) 2 = Some c \<longleftrightarrow> finish (Suc (Suc 0)) c2 = Inr (Some c)" for c
    using probe_None[of w s2 "Suc (Suc 0)"] probe_Some[of w s2 "Suc (Suc 0)" c]
    by (simp_all add: len c2_def numeral_2_eq_2)
  note d = discovery[OF None, of w, unfolded Let_def n_def[symmetric]]
  have run: "run_events w [Call, Close (length cs), Close (length cs), Close (length cs)] (st, cs) =
      step w (step w (step w (s1, cs @ [Waiting Probe 0 c0]) (Close (length cs))) (Close (length cs))) (Close (length cs))"
    by (simp only: run_events_def foldl.simps start)
  show ?thesis
    unfolding run
  proof (cases "probe w n 0")
    case (Some c)
    with p0(2)[of c] have f: "finish 0 c0 = Inr (Some c)" by simp
    have g: "getLinuxAccentColor w st = (Inr (Some c), s1\<lparr>usedStrategyIndex := Some 0\<rparr>)"
      unfolding d r using Some by simp
    show "step w (step w (step w (s1, cs @ [Waiting Probe 0 c0]) (Close (length cs))) (Close (length cs))) (Close (length cs)) =
        (snd (getLinuxAccentColor w st), cs @ [Done (fst (getLinuxAccentColor w st))])"
      unfolding g step_probe_found[OF f] step_done
      by simp
  next
    case a: None
    with p0(1) have f0: "\<And>c. finish 0 c0 \<noteq> Inr (Some c)" by simp
    have e1: "step w (s1, cs @ [Waiting Probe 0 c0]) (Close (length cs)) =
        (s2, cs @ [Waiting Probe (Suc 0) c1])"
      unfolding s2_def c1_def by (rule step_probe_next[OF f0]) simp
    show "step w (step w (step w (s1, cs @ [Waiting Probe 0 c0]) (Close (length cs))) (Close (length cs))) (Close (length cs)) =
        (snd (getLinuxAccentColor w st), cs @ [Done (fst (getLinuxAccentColor w st))])"
    proof (cases "probe w (n + 1) 1")
      case (Some c)
      with p1(2)[of c] have f: "finish (Suc 0) c1 = Inr (Some c)" by simp
      have g: "getLinuxAccentColor w st = (Inr (Some c), s2\<lparr>usedStrategyIndex := Some 1\<rparr>)"
        unfolding d r using a Some by simp
      show ?thesis
        unfolding g e1 step_probe_found[OF f] step_done
        by simp
    next
      case b: None
      with p1(1) have f1: "\<And>c. finish (Suc 0) c1 \<noteq> Inr (Some c)" by simp
      have e2: "step w (s2, cs @ [Waiting Probe (Suc 0) c1]) (Close (length cs)) =
          (s3, cs @ [Waiting Probe (Suc (Suc 0)) c2])"
        unfolding s3_def c2_def by (rule step_probe_next[OF f1]) simp
      show ?thesis
      proof (cases "probe w (n + 2) 2")
        case (Some c)
        with p2(2)[of c] have f: "finish (Suc (Suc 0)) c2 = Inr (Some c)" by simp
        have g: "getLinuxAccentColor w st = (Inr (Some c), s3\<lparr>usedStrategyIndex := Some 2\<rparr>)"
          unfolding d r using a b Some by simp
        show ?thesis
          unfolding g e1 e2 step_probe_found[OF f]
          by simp
      next
        case c: None
        with p2(1) have f2: "\<And>c. finish (Suc (Suc 0)) c2 \<noteq> Inr (Some c)" by simp
        have g: "getLinuxAccentColor w st = (Inr None, s3\<lparr>usedStrategyIndex := Some (- 1)\<rparr>)"
          unfolding d r using a b c by simp
        have e3: "step w (s3, cs @ [Waiting Probe (Suc (Suc 0)) c2]) (Close (length cs)) =
            (s3\<lparr>usedStrategyIndex := Some (- 1)\<rparr>, cs @ [Done (Inr None)])"
          by (rule step_probe_last[OF f2]) simp
        show ?thesis
          unfolding g e1 e2 e3 by simp
      qed
    qed
  qed
next
  case (Some i)
  show ?thesis
  proof (cases "i = - 1")
    case True
    with Some show ?thesis
      by (simp add: run_events_def exhausted_call)
  next
    case False
    show ?thesis
    proof (cases "0 \<le> i \<and> i < 3")
      case True
      define j where "j = nat i"
      with True have j: "j < 3" "i = int j" by auto
      with Some have s: "usedStrategyIndex st = Some (int j)" by simp
      show ?thesis
        using Some False True j
        by (simp add: run_events_def length_strategies resolved_call[OF j(1) s]
            strategy_halves)
    next
      case out: False
      with Some False have "getLinuxAccentColor w st = (Inl NotAFunction, st)"
        by (auto simp: getLinuxAccentColor_def length_strategies)
      with Some False out show ?thesis
        by (auto simp: run_events_def length_strategies)
    qed
  qed
qed

text \<open>
  So the state after \<open>k\<close> awaited calls is \<open>after w k\<close>, the state that the claims of
  the sections above are about.
\<close>

lemma awaited_calls:
  "fst (run_events w (awaited k) (initial, [])) = after w k
   \<and> length (snd (run_events w (awaited k) (initial, []))) = k"
proof (induction k)
  case 0
  show ?case by (simp add: run_events_def)
next
  case (Suc k)
  obtain st cs where r: "run_events w (awaited k) (initial, []) = (st, cs)"
    by (cases "run_events w (awaited k) (initial, [])")
  with Suc have s: "st = after w k" "length cs = k" by simp_all
  have "run_events w (awaited (Suc k)) (initial, []) =
      run_events w [Call, Close k, Close k, Close k] (st, cs)"
    by (simp add: run_events_def r[unfolded run_events_def])
  also have "\<dots> = (snd (getLinuxAccentColor w st), cs @ [Done (fst (getLinuxAccentColor w st))])"
    using awaited_call[of w cs st] s by simp
  finally show ?case using s by simp
qed

text \<open>The answers of the commands in \<open>waking_desktop\<close>.\<close>

lemma waking_desktop_answers:
  "finish 0 (waking_desktop 0 (fst (queries ! 0)) (snd (queries ! 0))) =
     Inl (ExitFailure (Some 1) (str ''Error org.freedesktop.DBus.Error.ServiceUnknown''))"
  "finish 0 (waking_desktop (Suc t) (fst (queries ! 0)) (snd (queries ! 0))) =
     Inr (Some (str ''#ea5421''))"
  "finish (Suc 0) (waking_desktop t (fst (queries ! Suc 0)) (snd (queries ! Suc 0))) =
     Inr (Some (str ''#7764d8''))"
proof -
  have p: "xdgDesktopPortal_parse portal_reply = Some (str ''#ea5421'')"
    by (simp add: xdgDesktopPortal_parse_def portal_reply_matches Let_def hex_loop_example
        del: hex_loop.simps)
  show "finish 0 (waking_desktop 0 (fst (queries ! 0)) (snd (queries ! 0))) =
     Inl (ExitFailure (Some 1) (str ''Error org.freedesktop.DBus.Error.ServiceUnknown''))"
    by (simp add: finish_def close_handler_def waking_desktop_def exits_def queries_def)
  show "finish 0 (waking_desktop (Suc t) (fst (queries ! 0)) (snd (queries ! 0))) =
     Inr (Some (str ''#ea5421''))"
    by (simp add: finish_def close_handler_def waking_desktop_def exits_def queries_def
        parsers_def p)
  show "finish (Suc 0) (waking_desktop t (fst (queries ! Suc 0)) (snd (queries ! Suc 0))) =
     Inr (Some (str ''#7764d8''))"
    by (simp add: finish_def close_handler_def waking_desktop_def exits_def queries_def
        parsers_def str_def sq_def trim_def isWhiteSpace_def match_def ubuntu_parse_def
        re_yaru_def)
qed

text \<open>
  Claim C3 without the condition on the calls fails.  Two calls are made at once on
  \<open>waking_desktop\<close>, both in the state Unknown, and each spawns \<open>dbus-send\<close>.  The
  child of call 0 fails, call 0 goes on to the Theme-Name strategy, sets the state to
  Resolved(1) and returns \<open>#7764d8\<close>.  Then the child of call 1 closes with the reply
  of the portal, and call 1 sets the state to Resolved(0) and returns \<open>#ea5421\<close>: the
  state has changed a second time, after a call has returned.
\<close>

theorem overlapping_calls_counterexample:
  "usedStrategyIndex (fst (run_events waking_desktop [Call, Call] (initial, []))) = None
   \<and> usedStrategyIndex
       (fst (run_events waking_desktop [Call, Call, Close 0, Close 0] (initial, [])))
     = Some 1
   \<and> snd (run_events waking_desktop [Call, Call, Close 0, Close 0] (initial, [])) ! 0
     = Done (Inr (Some (str ''#7764d8'')))
   \<and> usedStrategyIndex
       (fst (run_events waking_desktop [Call, Call, Close 0, Close 0, Close 1] (initial, [])))
     = Some 0
   \<and> spawned
       (fst (run_events waking_desktop [Call, Call, Close 0, Close 0, Close 1] (initial, [])))
     = [queries ! 0, queries ! 0, queries ! 1]
   \<and> snd (run_events waking_desktop [Call, Call, Close 0, Close 0, Close 1] (initial, []))
     = [Done (Inr (Some (str ''#7764d8''))), Done (Inr (Some (str ''#ea5421'')))]"
  by (simp add: run_events_def initial_def launch_def length_strategies waking_desktop_answers)

end
